theory Spec2Isabelle
  imports Main "HOL-Library.Sublist"
begin

section \<open>The agent execution orchestrator (agent-executor.service.ts)\<close>

text \<open>
  A shallow embedding of \<^verbatim>\<open>AgentExecutorService\<close>. The service is sequential code over
  three collaborators: the data store (Prisma), the model-generation service
  (\<^verbatim>\<open>LlmService.generate\<close>) and the tool executors supplied by the caller.

  \<^item> JavaScript values that are opaque to the orchestrator (parsed tool input, tool output,
    input schemas) are the type variable \<open>'j\<close>.
  \<^item> A thrown exception is the \<open>Inl\<close> branch of a sum; every \<^verbatim>\<open>await\<close> that can reject
    is a case distinction: the three Prisma queries, every model-generation call, every
    executor call. So are the built-ins that can throw: \<^verbatim>\<open>JSON.parse\<close>,
    \<^verbatim>\<open>JSON.stringify\<close> and the read of \<^verbatim>\<open>error.message\<close> in the catch block.
  \<^item> The world threaded through the code records every model-generation call and every
    executor invocation, in the order they were made, together with the arrays that the
    caller shares with the service. A collaborator is a function of the world it is
    called in, so it may answer the same request differently at different moments.
  \<^item> JavaScript strings are lists of characters; one list element stands for one UTF-16
    code unit, which is what \<^verbatim>\<open>substring\<close> and \<^verbatim>\<open>length\<close> count.
  \<^item> The \<^verbatim>\<open>timestamp\<close> field of a trace step (\<^verbatim>\<open>new Date()\<close>) is left out.
\<close>

subsection \<open>Data model (interfaces/model-provider.interface.ts, tool-definition.interface.ts)\<close>

datatype exn =
    Error string    \<comment> \<open>\<^verbatim>\<open>new Error(message)\<close>\<close>
  | SyntaxError     \<comment> \<open>thrown by \<^verbatim>\<open>JSON.parse\<close> on malformed text\<close>
  | TypeError       \<comment> \<open>thrown by a property read on \<^verbatim>\<open>null\<close> or \<^verbatim>\<open>undefined\<close>, and by
                        \<^verbatim>\<open>JSON.stringify\<close> on a BigInt or a circular value\<close>

text \<open>
  What a tool executor can reject with (or throw), as far as the catch block of
  executeToolCalls can tell the values apart: it reads \<^verbatim>\<open>error.message\<close>.
\<close>

datatype thrown =
    Thrown "string option"
      \<comment> \<open>a value other than \<^verbatim>\<open>null\<close> and \<^verbatim>\<open>undefined\<close>, with its \<^verbatim>\<open>message\<close> property:
          \<open>Some m\<close> for an \<^verbatim>\<open>Error\<close> with message \<open>m\<close>, \<open>None\<close> for a value that has none
          (a thrown string, say)\<close>
  | ThrownNullish
      \<comment> \<open>\<^verbatim>\<open>null\<close> or \<^verbatim>\<open>undefined\<close>: reading \<^verbatim>\<open>error.message\<close> throws a TypeError\<close>

datatype Role = System | User | Assistant | Tool

record ToolCallFunction =
  fname :: string         \<comment> \<open>\<^verbatim>\<open>function.name\<close>\<close>
  arguments :: string     \<comment> \<open>\<^verbatim>\<open>function.arguments\<close>, "JSON string"\<close>

record ToolCall =
  tc_id :: string         \<comment> \<open>\<^verbatim>\<open>id\<close>\<close>
  func :: ToolCallFunction  \<comment> \<open>\<^verbatim>\<open>function\<close>; the constant \<^verbatim>\<open>type: 'function'\<close> is left out\<close>

text \<open>
  \<^verbatim>\<open>Message.content\<close> is declared \<^verbatim>\<open>string\<close>, but the orchestrator stores the value
  of \<^verbatim>\<open>JSON.stringify(result.output)\<close> there, which is \<^verbatim>\<open>undefined\<close> when
  \<^verbatim>\<open>result.output\<close> is: \<open>None\<close> is \<^verbatim>\<open>undefined\<close>.
\<close>

record Message =
  role :: Role
  msg_content :: "string option"
  tool_calls :: "ToolCall list option"
  tool_call_id :: "string option"

datatype 'j InputSchema =
    Configured 'j        \<comment> \<open>\<^verbatim>\<open>at.tool.config.inputSchema\<close>\<close>
  | EmptyObjectSchema    \<comment> \<open>\<^verbatim>\<open>{ type: 'object', properties: {} }\<close>\<close>

record 'j ToolDefinition =
  td_name :: string
  td_description :: string
  td_inputSchema :: "'j InputSchema"

record ToolExecutionContext =
  organizationId :: string
  agentId :: string
  userId :: "string option"

record Usage =
  inputTokens :: int
  outputTokens :: int
  totalTokens :: int

datatype FinishReason = Stop | Tool_calls | Length | Error_reason

record GenerateResponse =
  content :: string
  toolCalls :: "ToolCall list option"
  finishReason :: FinishReason
  usage :: Usage

datatype ToolChoice = Auto | Required | NoChoice

text \<open>The fields of \<^verbatim>\<open>GenerateOptions\<close> that the orchestrator sets.\<close>

record 'j GenerateOptions =
  modelAlias :: string
  systemPrompt :: "string option"
  messages :: "Message list"
  tools :: "'j ToolDefinition list option"
  toolChoice :: "ToolChoice option"

subsection \<open>The world: the log of collaborator calls and the caller's arrays\<close>

type_synonym ref = nat

record 'j world =
  llm_calls :: "('j GenerateOptions \<times> (exn + GenerateResponse)) list"
    \<comment> \<open>every call of \<^verbatim>\<open>llmService.generate\<close> so far, with what it returned or threw\<close>
  tool_execs :: "(string \<times> 'j \<times> ToolExecutionContext \<times> (thrown + 'j)) list"
    \<comment> \<open>every call of an \<^verbatim>\<open>executor.execute\<close> so far: name, input, context, outcome\<close>
  arrays :: "ref \<Rightarrow> Message list"
    \<comment> \<open>the message arrays the caller holds, by reference\<close>

text \<open>
  A tool executor: \<^verbatim>\<open>execute(input, context)\<close> resolves with an output (\<open>Inr\<close>; the
  output may be any value, \<^verbatim>\<open>undefined\<close> included) or rejects with some value (\<open>Inl\<close>).
\<close>

record 'j ToolExecutor =
  ex_name :: string
  ex_execute :: "'j \<Rightarrow> ToolExecutionContext \<Rightarrow> 'j world \<Rightarrow> thrown + 'j"

subsection \<open>Rows of the data store, as the queries of the service return them\<close>

record AgentSystemPrompt =
  sp_status :: string
  sp_createdAt :: int
  sp_prompt :: string

record 'j ToolRow =
  tool_name :: string
  tool_description :: "string option"
  tool_inputSchema :: "'j option"    \<comment> \<open>\<^verbatim>\<open>tool.config?.inputSchema\<close>\<close>

record 'j Agent =
  agent_id :: string
  systemPrompts :: "AgentSystemPrompt list"
  agent_tools :: "'j ToolRow list"
  defaultModelAlias :: "string option"
  planningMode :: string
  agent_maxSteps :: "int option"

record ContextDocument =
  doc_agentId :: "string option"
  doc_organizationId :: string
  doc_title :: string
  doc_content :: "string option"

record AgentMemory =
  mem_agentId :: string
  mem_scope :: string
  mem_key :: string
  mem_value :: string

text \<open>
  What the service is constructed with, and the two built-ins of the platform it calls.
  \<^item> \<^verbatim>\<open>JSON.parse\<close>: \<open>None\<close> when it throws a \<^verbatim>\<open>SyntaxError\<close>.
  \<^item> \<^verbatim>\<open>JSON.stringify\<close>: it throws (\<open>Inl\<close>: a TypeError on a BigInt or a circular value,
    or whatever a \<^verbatim>\<open>toJSON\<close> method throws), returns \<^verbatim>\<open>undefined\<close> (\<open>Inr None\<close>: on
    \<^verbatim>\<open>undefined\<close>, a function or a symbol) or returns a text.
  \<^item> A table of the data store is \<open>Inr rows\<close>, or \<open>Inl e\<close> when the query on it rejects
    with \<open>e\<close> (a lost connection, say).
\<close>

record 'j deps =
  JSON_parse :: "string \<Rightarrow> 'j option"
  JSON_stringify :: "'j \<Rightarrow> exn + string option"
  generate :: "'j world \<Rightarrow> 'j GenerateOptions \<Rightarrow> exn + GenerateResponse"
  agent_table :: "exn + 'j Agent list"
  contextDocument_table :: "exn + ContextDocument list"
  agentMemory_table :: "exn + AgentMemory list"

subsection \<open>Results and trace steps\<close>

record 'j ToolResult =
  toolCallId :: string
  toolName :: string
  tr_input :: "'j option"
  tr_output :: "'j option"
  tr_error :: "string option"

datatype StepType = Llm_call | Tool_call | Retrieval

datatype 'j StepData =
    FirstCall "Message option" string "ToolCall list option"
      \<comment> \<open>\<^verbatim>\<open>{ input, output, toolCalls }\<close> of executeSingleStep\<close>
  | FinalCall string string
      \<comment> \<open>\<^verbatim>\<open>{ input: 'Tool results', output }\<close> of executeSingleStep\<close>
  | Iteration int string "ToolCall list option"
      \<comment> \<open>\<^verbatim>\<open>{ iteration, output, toolCalls }\<close> of executeLoop\<close>
  | Results "'j ToolResult list"
      \<comment> \<open>\<^verbatim>\<open>data: toolResults\<close>\<close>
  | Planning string
      \<comment> \<open>\<^verbatim>\<open>{ phase: 'planning', plan }\<close> of executePlanAndExecute\<close>

record 'j AgentExecutionStep =
  step_type :: StepType
  step_data :: "'j StepData"

record 'j AgentExecutionResult =
  r_output :: string
  toolCallsExecuted :: nat
  steps :: "'j AgentExecutionStep list"
  res_usage :: Usage

record 'j AgentExecutionOptions =
  opt_agentId :: string
  opt_organizationId :: string
  opt_userId :: "string option"
  opt_input :: string
  opt_previousMessages :: "ref option"
  opt_toolExecutors :: "'j ToolExecutor list option"

text \<open>The parameter object of executeSingleStep; executeLoop and executePlanAndExecute add maxSteps.\<close>

record 'j SingleStepOptions =
  o_systemPrompt :: string
  o_modelAlias :: string
  o_messages :: "Message list"
  o_toolDefinitions :: "'j ToolDefinition list"
  o_toolExecutors :: "'j ToolExecutor list"
  o_context :: ToolExecutionContext

record 'j LoopOptions = "'j SingleStepOptions" +
  o_maxSteps :: int

subsection \<open>Strings\<close>

definition nl :: string where
  "nl = [CHR 0x0A]"

fun join :: "string \<Rightarrow> string list \<Rightarrow> string" where
  "join sep [] = []"
| "join sep [x] = x"
| "join sep (x # y # ys) = x @ sep @ join sep (y # ys)"

definition substring0 :: "string \<Rightarrow> nat \<Rightarrow> string" where
  \<comment> \<open>\<^verbatim>\<open>s.substring(0, n)\<close>\<close>
  "substring0 s n = take n s"

definition truthy :: "string option \<Rightarrow> bool" where
  \<comment> \<open>a nullable string in a condition: \<^verbatim>\<open>null\<close> and \<^verbatim>\<open>''\<close> are falsy\<close>
  "truthy s = (case s of None \<Rightarrow> False | Some t \<Rightarrow> t \<noteq> [])"

definition or_default :: "string option \<Rightarrow> string \<Rightarrow> string" where
  \<comment> \<open>\<^verbatim>\<open>s || dflt\<close> on a nullable string\<close>
  "or_default s dflt = (case s of None \<Rightarrow> dflt | Some t \<Rightarrow> if t = [] then dflt else t)"

definition JSON_stringify_opt :: "'j deps \<Rightarrow> 'j option \<Rightarrow> exn + string option" where
  \<comment> \<open>\<^verbatim>\<open>JSON.stringify(result.output)\<close>; \<open>None\<close> is a result without the \<^verbatim>\<open>output\<close>
      property: the argument is then \<^verbatim>\<open>undefined\<close>, and so is the value returned\<close>
  "JSON_stringify_opt d v = (case v of None \<Rightarrow> Inr None | Some j \<Rightarrow> JSON_stringify d j)"

subsection \<open>Collaborator calls\<close>

definition llm_generate ::
  "'j deps \<Rightarrow> 'j GenerateOptions \<Rightarrow> 'j world \<Rightarrow> (exn + GenerateResponse) \<times> 'j world" where
  \<comment> \<open>\<^verbatim>\<open>await this.llmService.generate(req)\<close>, logged\<close>
  "llm_generate d req w =
     (let r = generate d w req
      in (r, w\<lparr>llm_calls := llm_calls w @ [(req, r)]\<rparr>))"

definition run_executor ::
  "'j ToolExecutor \<Rightarrow> 'j \<Rightarrow> ToolExecutionContext \<Rightarrow> 'j world \<Rightarrow> (thrown + 'j) \<times> 'j world" where
  \<comment> \<open>\<^verbatim>\<open>await executor.execute(toolInput, context)\<close>, logged\<close>
  "run_executor e toolInput ctx w =
     (let r = ex_execute e toolInput ctx w
      in (r, w\<lparr>tool_execs := tool_execs w @ [(ex_name e, toolInput, ctx, r)]\<rparr>))"

definition has_toolCalls :: "GenerateResponse \<Rightarrow> bool" where
  \<comment> \<open>\<^verbatim>\<open>response.toolCalls && response.toolCalls.length > 0\<close>\<close>
  "has_toolCalls response =
     (case toolCalls response of None \<Rightarrow> False | Some tcs \<Rightarrow> length tcs > 0)"

definition toolCalls_of :: "GenerateResponse \<Rightarrow> ToolCall list" where
  "toolCalls_of response = (case toolCalls response of None \<Rightarrow> [] | Some tcs \<Rightarrow> tcs)"

subsection \<open>executeToolCalls (lines 378-419)\<close>

fun executeToolCalls_loop ::
  "'j deps \<Rightarrow> ToolCall list \<Rightarrow> 'j ToolExecutor list \<Rightarrow> ToolExecutionContext \<Rightarrow>
   'j ToolResult list \<Rightarrow> 'j world \<Rightarrow> (exn + 'j ToolResult list) \<times> 'j world" where
  "executeToolCalls_loop d [] toolExecutors context results w = (Inr results, w)"
| "executeToolCalls_loop d (toolCall # rest) toolExecutors context results w =
     (let toolName = fname (func toolCall) in
      case JSON_parse d (arguments (func toolCall)) of
        None \<Rightarrow> (Inl SyntaxError, w)
      | Some toolInput \<Rightarrow>
          (case find (\<lambda>e. ex_name e = toolName) toolExecutors of
             None \<Rightarrow>
               executeToolCalls_loop d rest toolExecutors context
                 (results @ [\<lparr>toolCallId = tc_id toolCall, toolName = toolName,
                               tr_input = None, tr_output = None,
                               tr_error = Some (''Tool executor not found: '' @ toolName)\<rparr>]) w
           | Some executor \<Rightarrow>
               (case run_executor executor toolInput context w of
                  (Inr out, w') \<Rightarrow>
                    executeToolCalls_loop d rest toolExecutors context
                      (results @ [\<lparr>toolCallId = tc_id toolCall, toolName = toolName,
                                    tr_input = Some toolInput, tr_output = Some out,
                                    tr_error = None\<rparr>]) w'
                | (Inl ThrownNullish, w') \<Rightarrow> (Inl TypeError, w')
                | (Inl (Thrown message), w') \<Rightarrow>
                    executeToolCalls_loop d rest toolExecutors context
                      (results @ [\<lparr>toolCallId = tc_id toolCall, toolName = toolName,
                                    tr_input = Some toolInput, tr_output = None,
                                    tr_error = message\<rparr>]) w')))"

definition executeToolCalls ::
  "'j deps \<Rightarrow> ToolCall list \<Rightarrow> 'j ToolExecutor list \<Rightarrow> ToolExecutionContext \<Rightarrow>
   'j world \<Rightarrow> (exn + 'j ToolResult list) \<times> 'j world" where
  "executeToolCalls d calls toolExecutors context w =
     executeToolCalls_loop d calls toolExecutors context [] w"

definition tool_message :: "'j deps \<Rightarrow> 'j ToolResult \<Rightarrow> exn + Message" where
  \<comment> \<open>\<^verbatim>\<open>{ role: 'tool', content: JSON.stringify(result.output), tool_call_id: result.toolCallId }\<close>\<close>
  "tool_message d result =
     (case JSON_stringify_opt d (tr_output result) of
        Inl e \<Rightarrow> Inl e
      | Inr c \<Rightarrow> Inr \<lparr>role = Tool, msg_content = c, tool_calls = None,
                      tool_call_id = Some (toolCallId result)\<rparr>)"

fun tool_messages :: "'j deps \<Rightarrow> 'j ToolResult list \<Rightarrow> exn + Message list" where
  \<comment> \<open>one tool message per result, in order; the first \<^verbatim>\<open>JSON.stringify\<close> that throws ends it
      (\<^verbatim>\<open>toolResults.map(...)\<close> in executeSingleStep, the \<^verbatim>\<open>for\<close> loop of pushes in
      executeLoop)\<close>
  "tool_messages d [] = Inr []"
| "tool_messages d (result # results) =
     (case tool_message d result of
        Inl e \<Rightarrow> Inl e
      | Inr m \<Rightarrow>
          (case tool_messages d results of
             Inl e \<Rightarrow> Inl e
           | Inr ms \<Rightarrow> Inr (m # ms)))"

definition assistant_message :: "GenerateResponse \<Rightarrow> Message" where
  \<comment> \<open>\<^verbatim>\<open>{ role: 'assistant', content: response.content, tool_calls: response.toolCalls }\<close>\<close>
  "assistant_message response =
     \<lparr>role = Assistant, msg_content = Some (content response),
      tool_calls = toolCalls response, tool_call_id = None\<rparr>"

subsection \<open>executeSingleStep (lines 156-243)\<close>

definition last_message :: "Message list \<Rightarrow> Message option" where
  \<comment> \<open>\<^verbatim>\<open>messages[messages.length - 1]\<close>, \<^verbatim>\<open>undefined\<close> on the empty array\<close>
  "last_message ms = (if ms = [] then None else Some (last ms))"

definition executeSingleStep ::
  "'j deps \<Rightarrow> ('j, 'z) SingleStepOptions_scheme \<Rightarrow> 'j world \<Rightarrow>
   (exn + 'j AgentExecutionResult) \<times> 'j world" where
  "executeSingleStep d options w =
     (case llm_generate d
             \<lparr>modelAlias = o_modelAlias options, systemPrompt = Some (o_systemPrompt options),
              messages = o_messages options, tools = Some (o_toolDefinitions options),
              toolChoice = Some Auto\<rparr> w of
        (Inl e, w1) \<Rightarrow> (Inl e, w1)
      | (Inr response, w1) \<Rightarrow>
          (let steps1 = [\<lparr>step_type = Llm_call,
                           step_data = FirstCall (last_message (o_messages options))
                                         (content response) (toolCalls response)\<rparr>]
           in if has_toolCalls response then
                (case executeToolCalls d (toolCalls_of response) (o_toolExecutors options)
                        (o_context options) w1 of
                   (Inl e, w2) \<Rightarrow> (Inl e, w2)
                 | (Inr toolResults, w2) \<Rightarrow>
                     (let steps2 = steps1 @ [\<lparr>step_type = Tool_call,
                                               step_data = Results toolResults\<rparr>]
                      in case tool_messages d toolResults of
                           Inl e \<Rightarrow> (Inl e, w2)
                         | Inr toolMessages \<Rightarrow>
                             (let messagesWithToolResults =
                                    o_messages options @ [assistant_message response] @
                                    toolMessages
                              in case llm_generate d
                                        \<lparr>modelAlias = o_modelAlias options,
                                         systemPrompt = Some (o_systemPrompt options),
                                         messages = messagesWithToolResults, tools = None,
                                         toolChoice = None\<rparr> w2 of
                                   (Inl e, w3) \<Rightarrow> (Inl e, w3)
                                 | (Inr finalResponse, w3) \<Rightarrow>
                                     (Inr \<lparr>r_output = content finalResponse,
                                           toolCallsExecuted = length (toolCalls_of response),
                                           steps = steps2 @ [\<lparr>step_type = Llm_call,
                                             step_data = FinalCall ''Tool results''
                                                           (content finalResponse)\<rparr>],
                                           res_usage = usage response\<rparr>, w3))))
              else
                (Inr \<lparr>r_output = content response, toolCallsExecuted = 0,
                      steps = steps1, res_usage = usage response\<rparr>, w1)))"

subsection \<open>executeLoop (lines 245-334)\<close>

text \<open>The local variables of executeLoop.\<close>

record 'j loop_vars =
  lv_steps :: "'j AgentExecutionStep list"
  currentMessages :: "Message list"
  totalInputTokens :: int
  totalOutputTokens :: int
  lv_toolCallsExecuted :: nat
  iteration :: int
  finalOutput :: string

function executeLoop_while ::
  "'j deps \<Rightarrow> 'j LoopOptions \<Rightarrow> 'j loop_vars \<Rightarrow> 'j world \<Rightarrow>
   (exn + 'j loop_vars) \<times> 'j world" where
  "executeLoop_while d options v w =
     (if iteration v < o_maxSteps options then
        (case llm_generate d
                \<lparr>modelAlias = o_modelAlias options, systemPrompt = Some (o_systemPrompt options),
                 messages = currentMessages v, tools = Some (o_toolDefinitions options),
                 toolChoice = Some Auto\<rparr> w of
           (Inl e, w1) \<Rightarrow> (Inl e, w1)
         | (Inr response, w1) \<Rightarrow>
             (let v1 = v\<lparr>iteration := iteration v + 1,
                         totalInputTokens := totalInputTokens v + inputTokens (usage response),
                         totalOutputTokens := totalOutputTokens v + outputTokens (usage response),
                         lv_steps := lv_steps v @
                           [\<lparr>step_type = Llm_call,
                             step_data = Iteration (iteration v + 1) (content response)
                                           (toolCalls response)\<rparr>],
                         finalOutput := content response\<rparr>
              in if \<not> has_toolCalls response then (Inr v1, w1)
                 else
                   (case executeToolCalls d (toolCalls_of response) (o_toolExecutors options)
                           (o_context options) w1 of
                      (Inl e, w2) \<Rightarrow> (Inl e, w2)
                    | (Inr toolResults, w2) \<Rightarrow>
                        (case tool_messages d toolResults of
                           Inl e \<Rightarrow> (Inl e, w2)
                         | Inr toolMessages \<Rightarrow>
                             executeLoop_while d options
                               (v1\<lparr>lv_toolCallsExecuted :=
                                      lv_toolCallsExecuted v1 + length (toolCalls_of response),
                                    lv_steps := lv_steps v1 @
                                      [\<lparr>step_type = Tool_call,
                                        step_data = Results toolResults\<rparr>],
                                    currentMessages := currentMessages v1 @
                                      [assistant_message response] @ toolMessages\<rparr>) w2))))
      else (Inr v, w))"
  by pat_completeness auto
termination
  by (relation "measure (\<lambda>(d, options, v, w). nat (o_maxSteps options - iteration v))") auto

definition executeLoop ::
  "'j deps \<Rightarrow> 'j LoopOptions \<Rightarrow> 'j world \<Rightarrow> (exn + 'j AgentExecutionResult) \<times> 'j world" where
  "executeLoop d options w =
     (case executeLoop_while d options
             \<lparr>lv_steps = [], currentMessages = o_messages options, totalInputTokens = 0,
              totalOutputTokens = 0, lv_toolCallsExecuted = 0, iteration = 0,
              finalOutput = []\<rparr> w of
        (Inl e, w') \<Rightarrow> (Inl e, w')
      | (Inr v, w') \<Rightarrow>
          (Inr \<lparr>r_output = finalOutput v, toolCallsExecuted = lv_toolCallsExecuted v,
                steps = lv_steps v,
                res_usage = \<lparr>inputTokens = totalInputTokens v,
                             outputTokens = totalOutputTokens v,
                             totalTokens = totalInputTokens v + totalOutputTokens v\<rparr>\<rparr>, w'))"

subsection \<open>executePlanAndExecute (lines 336-376)\<close>

definition plan_instruction :: string where
  "plan_instruction =
     nl @ nl @ ''Create a step-by-step plan to accomplish the user'' @ [CHR 0x27] @
     ''s request. List the steps clearly.''"

definition plan_message :: "GenerateResponse \<Rightarrow> Message" where
  "plan_message planResponse =
     \<lparr>role = Assistant,
      msg_content = Some (''Plan:'' @ nl @ content planResponse @ nl @ nl @
                          ''Now executing this plan...''),
      tool_calls = None, tool_call_id = None\<rparr>"

definition executePlanAndExecute ::
  "'j deps \<Rightarrow> 'j LoopOptions \<Rightarrow> 'j world \<Rightarrow> (exn + 'j AgentExecutionResult) \<times> 'j world" where
  "executePlanAndExecute d options w =
     (let planningPrompt = o_systemPrompt options @ plan_instruction
      in case llm_generate d
                \<lparr>modelAlias = o_modelAlias options, systemPrompt = Some planningPrompt,
                 messages = o_messages options, tools = None, toolChoice = None\<rparr> w of
           (Inl e, w1) \<Rightarrow> (Inl e, w1)
         | (Inr planResponse, w1) \<Rightarrow>
             (let steps0 = [\<lparr>step_type = Llm_call,
                              step_data = Planning (content planResponse)\<rparr>]
                            :: 'j AgentExecutionStep list
              in executeLoop d
                   (options\<lparr>o_messages := o_messages options @ [plan_message planResponse]\<rparr>)
                   w1))"

subsection \<open>buildToolDefinitions, retrieveContext, buildEnhancedSystemPrompt (lines 421-479)\<close>

definition buildToolDefinitions :: "'j ToolRow list \<Rightarrow> 'j ToolDefinition list" where
  "buildToolDefinitions agentTools =
     map (\<lambda>at. \<lparr>td_name = tool_name at,
                 td_description = or_default (tool_description at) (''Execute '' @ tool_name at),
                 td_inputSchema = (case tool_inputSchema at of
                                     Some sch \<Rightarrow> Configured sch
                                   | None \<Rightarrow> EmptyObjectSchema)\<rparr>) agentTools"

definition contextDocument_findMany ::
  "'j deps \<Rightarrow> string \<Rightarrow> string \<Rightarrow> exn + ContextDocument list" where
  \<comment> \<open>\<^verbatim>\<open>where: { OR: [{ agentId }, { organizationId, agentId: null }] }, take: 5\<close>\<close>
  "contextDocument_findMany d aid oid =
     (case contextDocument_table d of
        Inl e \<Rightarrow> Inl e
      | Inr rows \<Rightarrow>
          Inr (take 5 (filter (\<lambda>doc. doc_agentId doc = Some aid \<or>
                                     (doc_organizationId doc = oid \<and> doc_agentId doc = None))
                        rows)))"

definition agentMemory_findMany :: "'j deps \<Rightarrow> string \<Rightarrow> exn + AgentMemory list" where
  \<comment> \<open>\<^verbatim>\<open>where: { agentId, scope: { in: ['agent', 'global'] } }, take: 5\<close>\<close>
  "agentMemory_findMany d aid =
     (case agentMemory_table d of
        Inl e \<Rightarrow> Inl e
      | Inr rows \<Rightarrow>
          Inr (take 5 (filter (\<lambda>m. mem_agentId m = aid \<and>
                                   (mem_scope m = ''agent'' \<or> mem_scope m = ''global''))
                        rows)))"

definition document_snippet :: "ContextDocument \<Rightarrow> string \<Rightarrow> string" where
  \<comment> \<open>\<^verbatim>\<open>`[Document: ${doc.title}]\n${doc.content.substring(0, 1000)}`\<close>\<close>
  "document_snippet doc c = ''[Document: '' @ doc_title doc @ '']'' @ nl @ substring0 c 1000"

definition memory_snippet :: "AgentMemory \<Rightarrow> string" where
  \<comment> \<open>\<^verbatim>\<open>`[Memory: ${memory.key}]\n${memory.value}`\<close>\<close>
  "memory_snippet memory = ''[Memory: '' @ mem_key memory @ '']'' @ nl @ mem_value memory"

fun push_documents :: "ContextDocument list \<Rightarrow> string list \<Rightarrow> string list" where
  \<comment> \<open>\<^verbatim>\<open>for (const doc of contextDocs) { if (doc.content) contexts.push(...) }\<close>\<close>
  "push_documents [] contexts = contexts"
| "push_documents (doc # docs) contexts =
     (if truthy (doc_content doc)
      then push_documents docs (contexts @ [document_snippet doc (the (doc_content doc))])
      else push_documents docs contexts)"

fun push_memories :: "AgentMemory list \<Rightarrow> string list \<Rightarrow> string list" where
  \<comment> \<open>\<^verbatim>\<open>for (const memory of memories) { contexts.push(...) }\<close>\<close>
  "push_memories [] contexts = contexts"
| "push_memories (memory # memories) contexts =
     push_memories memories (contexts @ [memory_snippet memory])"

definition retrieveContext ::
  "'j deps \<Rightarrow> string \<Rightarrow> string \<Rightarrow> string \<Rightarrow> exn + string list" where
  "retrieveContext d aid oid query =
     (case contextDocument_findMany d aid oid of
        Inl e \<Rightarrow> Inl e
      | Inr contextDocs \<Rightarrow>
          (case agentMemory_findMany d aid of
             Inl e \<Rightarrow> Inl e
           | Inr memories \<Rightarrow> Inr (push_memories memories (push_documents contextDocs []))))"

definition context_header :: string where
  "context_header =
     nl @ nl @ ''## Relevant Context'' @ nl @ nl @
     ''The following context documents and memories may be helpful:'' @ nl @ nl"

definition context_footer :: string where
  "context_footer =
     nl @ nl @ ''---'' @ nl @ nl @
     ''Use the above context when relevant to answer the user'' @ [CHR 0x27] @ ''s query.''"

definition context_separator :: string where
  "context_separator = nl @ nl @ ''---'' @ nl @ nl"

definition buildEnhancedSystemPrompt :: "string \<Rightarrow> string list \<Rightarrow> string" where
  "buildEnhancedSystemPrompt basePrompt contexts =
     (if length contexts = 0 then basePrompt
      else (let contextSection = join context_separator contexts
            in basePrompt @ context_header @ contextSection @ context_footer))"

subsection \<open>execute (lines 45-154)\<close>

definition agent_findUnique :: "'j deps \<Rightarrow> string \<Rightarrow> exn + 'j Agent option" where
  \<comment> \<open>\<^verbatim>\<open>where: { id }\<close>, with the include clause
      \<^verbatim>\<open>systemPrompts: { where: { status: 'active' }, orderBy: { createdAt: 'desc' }, take: 1 }\<close>\<close>
  "agent_findUnique d aid =
     (case agent_table d of
        Inl e \<Rightarrow> Inl e
      | Inr rows \<Rightarrow>
          (case find (\<lambda>a. agent_id a = aid) rows of
             None \<Rightarrow> Inr None
           | Some a \<Rightarrow>
               Inr (Some (a\<lparr>systemPrompts :=
                          take 1 (rev (sort_key sp_createdAt
                            (filter (\<lambda>p. sp_status p = ''active'') (systemPrompts a))))\<rparr>))))"

definition default_systemPrompt :: string where
  "default_systemPrompt = ''You are a helpful AI assistant for SecOps.''"

definition default_modelAlias :: string where
  "default_modelAlias = ''claude-3-5-sonnet''"

definition user_message :: "string \<Rightarrow> Message" where
  \<comment> \<open>\<^verbatim>\<open>{ role: 'user', content: options.input }\<close>\<close>
  "user_message inp = \<lparr>role = User, msg_content = Some inp, tool_calls = None, tool_call_id = None\<rparr>"

definition push_user_message ::
  "ref option \<Rightarrow> Message \<Rightarrow> 'j world \<Rightarrow> Message list \<times> 'j world" where
  \<comment> \<open>\<^verbatim>\<open>const messages = options.previousMessages || []; messages.push(m)\<close>: the array that
      is pushed to is the caller's own when one was passed; the contents after the push
      are returned\<close>
  "push_user_message previousMessages m w =
     (case previousMessages of
        None \<Rightarrow> ([] @ [m], w)
      | Some a \<Rightarrow> (arrays w a @ [m], w\<lparr>arrays := (arrays w)(a := arrays w a @ [m])\<rparr>))"

definition execute ::
  "'j deps \<Rightarrow> 'j AgentExecutionOptions \<Rightarrow> 'j world \<Rightarrow>
   (exn + 'j AgentExecutionResult) \<times> 'j world" where
  "execute d options w =
     (case agent_findUnique d (opt_agentId options) of
        Inl e \<Rightarrow> (Inl e, w)
      | Inr None \<Rightarrow> (Inl (Error ''Agent not found''), w)
      | Inr (Some agent) \<Rightarrow>
          (let sysPrompt = or_default (case systemPrompts agent of
                                         [] \<Rightarrow> None
                                       | p # _ \<Rightarrow> Some (sp_prompt p)) default_systemPrompt;
               alias = or_default (defaultModelAlias agent) default_modelAlias;
               mode = planningMode agent;
               maxSteps = (case agent_maxSteps agent of
                             None \<Rightarrow> 10
                           | Some n \<Rightarrow> if n = 0 then 10 else n);
               toolDefinitions = buildToolDefinitions (agent_tools agent)
           in case retrieveContext d (opt_agentId options) (opt_organizationId options)
                     (opt_input options) of
                Inl e \<Rightarrow> (Inl e, w)
              | Inr retrievedContext \<Rightarrow>
                  (let enhancedSystemPrompt =
                         buildEnhancedSystemPrompt sysPrompt retrievedContext;
                       (msgs, w0) = push_user_message (opt_previousMessages options)
                                      (user_message (opt_input options)) w;
                       executors = (case opt_toolExecutors options of
                                      None \<Rightarrow> []
                                    | Some es \<Rightarrow> es);
                       ctx = \<lparr>organizationId = opt_organizationId options,
                              agentId = opt_agentId options, userId = opt_userId options\<rparr>
                   in if mode = ''single_step'' then
                        (case executeSingleStep d
                                \<lparr>o_systemPrompt = enhancedSystemPrompt, o_modelAlias = alias,
                                 o_messages = msgs, o_toolDefinitions = toolDefinitions,
                                 o_toolExecutors = executors, o_context = ctx\<rparr> w0 of
                           (Inl e, w') \<Rightarrow> (Inl e, w')
                         | (Inr result, w') \<Rightarrow>
                             (Inr \<lparr>r_output = r_output result,
                                   toolCallsExecuted = 0 + toolCallsExecuted result,
                                   steps = [] @ steps result,
                                   res_usage =
                                     \<lparr>inputTokens = 0 + inputTokens (res_usage result),
                                      outputTokens = 0 + outputTokens (res_usage result),
                                      totalTokens = (0 + inputTokens (res_usage result)) +
                                                    (0 + outputTokens (res_usage result))\<rparr>\<rparr>,
                              w'))
                      else if mode = ''loop_with_limits'' then
                        executeLoop d
                          \<lparr>o_systemPrompt = enhancedSystemPrompt, o_modelAlias = alias,
                           o_messages = msgs, o_toolDefinitions = toolDefinitions,
                           o_toolExecutors = executors, o_context = ctx,
                           o_maxSteps = maxSteps\<rparr> w0
                      else
                        executePlanAndExecute d
                          \<lparr>o_systemPrompt = enhancedSystemPrompt, o_modelAlias = alias,
                           o_messages = msgs, o_toolDefinitions = toolDefinitions,
                           o_toolExecutors = executors, o_context = ctx,
                           o_maxSteps = maxSteps\<rparr> w0)))"

section \<open>Vocabulary of the statements\<close>

subsection \<open>The call log and the tool-execution phase\<close>

definition logged :: "'j world \<Rightarrow> 'j GenerateOptions \<Rightarrow> exn + GenerateResponse \<Rightarrow> 'j world" where
  \<comment> \<open>the world after one more model-generation call\<close>
  "logged w req r = w\<lparr>llm_calls := llm_calls w @ [(req, r)]\<rparr>"

definition new_calls ::
  "'j world \<Rightarrow> 'j world \<Rightarrow> ('j GenerateOptions \<times> (exn + GenerateResponse)) list" where
  \<comment> \<open>the model-generation calls made between world w and a later world w', oldest first\<close>
  "new_calls w w' = drop (length (llm_calls w)) (llm_calls w')"

definition new_execs ::
  "'j world \<Rightarrow> 'j world \<Rightarrow> (string \<times> 'j \<times> ToolExecutionContext \<times> (thrown + 'j)) list" where
  \<comment> \<open>the executor invocations made between world w and a later world w', oldest first\<close>
  "new_execs w w' = drop (length (tool_execs w)) (tool_execs w')"

definition has_executor :: "'j ToolExecutor list \<Rightarrow> string \<Rightarrow> bool" where
  \<comment> \<open>\<^verbatim>\<open>toolExecutors.find((e) => e.name === toolName)\<close> finds an executor\<close>
  "has_executor execs n = (find (\<lambda>e. ex_name e = n) execs \<noteq> None)"

definition not_found_result :: "ToolCall \<Rightarrow> 'j ToolResult" where
  \<comment> \<open>the result synthesized for a request whose tool has no executor\<close>
  "not_found_result c =
     \<lparr>toolCallId = tc_id c, toolName = fname (func c), tr_input = None, tr_output = None,
      tr_error = Some (''Tool executor not found: '' @ fname (func c))\<rparr>"

definition executed_result :: "ToolCall \<Rightarrow> 'j \<Rightarrow> thrown + 'j \<Rightarrow> 'j ToolResult" where
  \<comment> \<open>the result pushed for a request whose executor resolved, or rejected with a value
      whose \<^verbatim>\<open>message\<close> can be read\<close>
  "executed_result c inp outcome =
     (case outcome of
        Inr out \<Rightarrow> \<lparr>toolCallId = tc_id c, toolName = fname (func c), tr_input = Some inp,
                    tr_output = Some out, tr_error = None\<rparr>
      | Inl t \<Rightarrow> \<lparr>toolCallId = tc_id c, toolName = fname (func c), tr_input = Some inp,
                  tr_output = None,
                  tr_error = (case t of Thrown m \<Rightarrow> m | ThrownNullish \<Rightarrow> None)\<rparr>)"

definition rejected_nullish ::
  "string \<times> 'j \<times> ToolExecutionContext \<times> (thrown + 'j) \<Rightarrow> bool" where
  \<comment> \<open>an executor invocation that rejected with \<^verbatim>\<open>null\<close> or \<^verbatim>\<open>undefined\<close>\<close>
  "rejected_nullish x = (snd (snd (snd x)) = Inl ThrownNullish)"

subsection \<open>The loop of executeLoop\<close>

definition loop_request :: "'j LoopOptions \<Rightarrow> 'j loop_vars \<Rightarrow> 'j GenerateOptions" where
  \<comment> \<open>the request of one round of the loop\<close>
  "loop_request options v =
     \<lparr>modelAlias = o_modelAlias options, systemPrompt = Some (o_systemPrompt options),
      messages = currentMessages v, tools = Some (o_toolDefinitions options),
      toolChoice = Some Auto\<rparr>"

definition after_llm :: "'j loop_vars \<Rightarrow> GenerateResponse \<Rightarrow> 'j loop_vars" where
  \<comment> \<open>the local variables after the model call of a round\<close>
  "after_llm v response =
     v\<lparr>iteration := iteration v + 1,
       totalInputTokens := totalInputTokens v + inputTokens (usage response),
       totalOutputTokens := totalOutputTokens v + outputTokens (usage response),
       lv_steps := lv_steps v @
         [\<lparr>step_type = Llm_call,
           step_data = Iteration (iteration v + 1) (content response) (toolCalls response)\<rparr>],
       finalOutput := content response\<rparr>"

definition after_tools ::
  "'j loop_vars \<Rightarrow> GenerateResponse \<Rightarrow> 'j ToolResult list \<Rightarrow> Message list \<Rightarrow> 'j loop_vars" where
  \<comment> \<open>the local variables after the tool calls of a round\<close>
  "after_tools v1 response toolResults toolMessages =
     v1\<lparr>lv_toolCallsExecuted := lv_toolCallsExecuted v1 + length (toolCalls_of response),
        lv_steps := lv_steps v1 @ [\<lparr>step_type = Tool_call, step_data = Results toolResults\<rparr>],
        currentMessages := currentMessages v1 @ [assistant_message response] @ toolMessages\<rparr>"

definition tool_round ::
  "'j deps \<Rightarrow> ('j, 'z) SingleStepOptions_scheme \<Rightarrow> GenerateResponse \<Rightarrow> 'j world \<Rightarrow>
   (exn + 'j ToolResult list \<times> Message list) \<times> 'j world" where
  \<comment> \<open>what follows a response that requests tools, in executeSingleStep and in executeLoop
      alike: the tool-execution phase, then one tool message per result; either can throw\<close>
  "tool_round d options response w1 =
     (case executeToolCalls d (toolCalls_of response) (o_toolExecutors options)
             (o_context options) w1 of
        (Inl e, w2) \<Rightarrow> (Inl e, w2)
      | (Inr toolResults, w2) \<Rightarrow>
          (case tool_messages d toolResults of
             Inl e \<Rightarrow> (Inl e, w2)
           | Inr toolMessages \<Rightarrow> (Inr (toolResults, toolMessages), w2)))"

definition loop_call_ok :: "'j LoopOptions \<Rightarrow> Message list \<Rightarrow> 'j GenerateOptions \<Rightarrow> bool" where
  \<comment> \<open>a call as the loop makes them: tools offered, the system prompt as given, a conversation that extends ms\<close>
  "loop_call_ok options ms req =
     (modelAlias req = o_modelAlias options \<and> systemPrompt req = Some (o_systemPrompt options) \<and>
      tools req = Some (o_toolDefinitions options) \<and> toolChoice req = Some Auto \<and>
      prefix ms (messages req))"



definition sum_inputTokens ::
  "('j GenerateOptions \<times> (exn + GenerateResponse)) list \<Rightarrow> int" where
  \<comment> \<open>the input tokens reported by the calls of a log\<close>
  "sum_inputTokens calls =
     sum_list (map (\<lambda>x. case snd x of Inl e \<Rightarrow> 0 | Inr response \<Rightarrow> inputTokens (usage response)) calls)"

definition sum_outputTokens ::
  "('j GenerateOptions \<times> (exn + GenerateResponse)) list \<Rightarrow> int" where
  \<comment> \<open>the output tokens reported by the calls of a log\<close>
  "sum_outputTokens calls =
     sum_list (map (\<lambda>x. case snd x of Inl e \<Rightarrow> 0 | Inr response \<Rightarrow> outputTokens (usage response)) calls)"

definition sum_toolCalls ::
  "('j GenerateOptions \<times> (exn + GenerateResponse)) list \<Rightarrow> nat" where
  \<comment> \<open>the tool calls requested by the responses of a log\<close>
  "sum_toolCalls calls =
     sum_list (map (\<lambda>x. case snd x of Inl e \<Rightarrow> 0 | Inr response \<Rightarrow> length (toolCalls_of response)) calls)"

definition is_planning_step :: "'j AgentExecutionStep \<Rightarrow> bool" where
  \<comment> \<open>a trace step with the payload \<^verbatim>\<open>{ phase: 'planning', plan }\<close>\<close>
  "is_planning_step s = (case step_data s of Planning plan \<Rightarrow> True | _ \<Rightarrow> False)"

definition llm_call_steps :: "'j AgentExecutionStep list \<Rightarrow> 'j AgentExecutionStep list" where
  \<comment> \<open>the llm_call records of a trace\<close>
  "llm_call_steps ss = filter (\<lambda>s. step_type s = Llm_call) ss"

definition loop_init :: "'j LoopOptions \<Rightarrow> 'j loop_vars" where
  \<comment> \<open>executeLoop's local variables before the first round\<close>
  "loop_init options =
     \<lparr>lv_steps = [], currentMessages = o_messages options, totalInputTokens = 0,
      totalOutputTokens = 0, lv_toolCallsExecuted = 0, iteration = 0, finalOutput = []\<rparr>"

definition loop_result :: "'j loop_vars \<Rightarrow> 'j AgentExecutionResult" where
  \<comment> \<open>the result executeLoop builds from its final variables\<close>
  "loop_result v =
     \<lparr>r_output = finalOutput v, toolCallsExecuted = lv_toolCallsExecuted v, steps = lv_steps v,
      res_usage = \<lparr>inputTokens = totalInputTokens v, outputTokens = totalOutputTokens v,
                   totalTokens = totalInputTokens v + totalOutputTokens v\<rparr>\<rparr>"

subsection \<open>executeSingleStep\<close>

definition first_request :: "('j, 'z) SingleStepOptions_scheme \<Rightarrow> 'j GenerateOptions" where
  \<comment> \<open>the first model call of executeSingleStep\<close>
  "first_request options =
     \<lparr>modelAlias = o_modelAlias options, systemPrompt = Some (o_systemPrompt options),
      messages = o_messages options, tools = Some (o_toolDefinitions options),
      toolChoice = Some Auto\<rparr>"

definition second_request ::
  "('j, 'z) SingleStepOptions_scheme \<Rightarrow> GenerateResponse \<Rightarrow> Message list \<Rightarrow>
   'j GenerateOptions" where
  \<comment> \<open>the second model call of executeSingleStep, made after the tool round\<close>
  "second_request options response toolMessages =
     \<lparr>modelAlias = o_modelAlias options, systemPrompt = Some (o_systemPrompt options),
      messages = o_messages options @ [assistant_message response] @ toolMessages,
      tools = None, toolChoice = None\<rparr>"

definition single_step_result ::
  "('j, 'z) SingleStepOptions_scheme \<Rightarrow> GenerateResponse \<Rightarrow> 'j ToolResult list \<Rightarrow>
   GenerateResponse \<Rightarrow> 'j AgentExecutionResult" where
  \<comment> \<open>what executeSingleStep returns after its second model call\<close>
  "single_step_result options response toolResults finalResponse =
     \<lparr>r_output = content finalResponse,
      toolCallsExecuted = length (toolCalls_of response),
      steps = [\<lparr>step_type = Llm_call,
                step_data = FirstCall (last_message (o_messages options))
                              (content response) (toolCalls response)\<rparr>,
               \<lparr>step_type = Tool_call, step_data = Results toolResults\<rparr>,
               \<lparr>step_type = Llm_call,
                step_data = FinalCall ''Tool results'' (content finalResponse)\<rparr>],
      res_usage = usage response\<rparr>"

subsection \<open>executePlanAndExecute\<close>

definition planning_request :: "'j LoopOptions \<Rightarrow> 'j GenerateOptions" where
  \<comment> \<open>the preliminary model call of executePlanAndExecute\<close>
  "planning_request options =
     \<lparr>modelAlias = o_modelAlias options,
      systemPrompt = Some (o_systemPrompt options @ plan_instruction),
      messages = o_messages options, tools = None, toolChoice = None\<rparr>"

subsection \<open>Context assembly\<close>

definition context_snippets :: "ContextDocument list \<Rightarrow> AgentMemory list \<Rightarrow> string list" where
  \<comment> \<open>the snippets built from the rows the two queries return, stated directly: a labelled one
      with the first 1000 characters of the content per document that has content, then a
      labelled one with the whole value per memory\<close>
  "context_snippets docs memories =
     map (\<lambda>doc. ''[Document: '' @ doc_title doc @ '']'' @ [CHR 0x0A] @
                 take 1000 (the (doc_content doc)))
       (filter (\<lambda>doc. truthy (doc_content doc)) docs) @
     map (\<lambda>m. ''[Memory: '' @ mem_key m @ '']'' @ [CHR 0x0A] @ mem_value m) memories"

subsection \<open>execute\<close>

definition call_ok :: "string \<Rightarrow> string \<Rightarrow> Message list \<Rightarrow> 'j GenerateOptions \<Rightarrow> bool" where
  \<comment> \<open>a call with the given alias, a system prompt that starts with the given prompt, and a conversation that extends ms\<close>
  "call_ok alias prompt ms req =
     (modelAlias req = alias \<and>
      (case systemPrompt req of None \<Rightarrow> False | Some p \<Rightarrow> prefix prompt p) \<and>
      prefix ms (messages req))"

definition run_ok ::
  "string \<Rightarrow> string \<Rightarrow> Message list \<Rightarrow> 'j world \<Rightarrow> (exn + 'a) \<times> 'j world \<Rightarrow> bool" where
  \<comment> \<open>a run from world w only appends calls of that kind to the log, leaves the arrays alone, and fails only after a call\<close>
  "run_ok alias prompt ms w run =
     (llm_calls (snd run) = llm_calls w @ new_calls w (snd run) \<and>
      arrays (snd run) = arrays w \<and>
      list_all (\<lambda>x. call_ok alias prompt ms (fst x)) (new_calls w (snd run)) \<and>
      (case fst run of Inl e \<Rightarrow> new_calls w (snd run) \<noteq> [] | Inr r \<Rightarrow> True))"

definition resolved_prompt :: "'j Agent \<Rightarrow> string" where
  \<comment> \<open>\<^verbatim>\<open>agent.systemPrompts[0]?.prompt || 'You are a helpful AI assistant for SecOps.'\<close>\<close>
  "resolved_prompt agent =
     or_default (case systemPrompts agent of [] \<Rightarrow> None | p # ps \<Rightarrow> Some (sp_prompt p))
       default_systemPrompt"

definition resolved_alias :: "'j Agent \<Rightarrow> string" where
  \<comment> \<open>\<^verbatim>\<open>agent.defaultModelAlias || 'claude-3-5-sonnet'\<close>\<close>
  "resolved_alias agent = or_default (defaultModelAlias agent) default_modelAlias"

definition conversation :: "'j AgentExecutionOptions \<Rightarrow> 'j world \<Rightarrow> Message list" where
  \<comment> \<open>the messages array after the push of the user message\<close>
  "conversation options w =
     (case opt_previousMessages options of None \<Rightarrow> [] | Some a \<Rightarrow> arrays w a) @
     [user_message (opt_input options)]"

definition after_push :: "'j AgentExecutionOptions \<Rightarrow> 'j world \<Rightarrow> 'j world" where
  \<comment> \<open>the world after the push of the user message\<close>
  "after_push options w =
     (case opt_previousMessages options of
        None \<Rightarrow> w
      | Some a \<Rightarrow> w\<lparr>arrays := (arrays w)(a := arrays w a @ [user_message (opt_input options)])\<rparr>)"

subsection \<open>Example collaborators and inputs\<close>

text \<open>
  In the examples a JavaScript value is represented by its JSON text, so that
  \<^verbatim>\<open>JSON.stringify\<close> returns the value itself. The only argument texts the examples use are
  \<^verbatim>\<open>{}\<close>, which \<^verbatim>\<open>JSON.parse\<close> accepts, and \<^verbatim>\<open>{\<close>, on which it throws.
\<close>

definition example_parse :: "string \<Rightarrow> string option" where
  "example_parse s = (if s = ''{}'' then Some s else None)"

definition scripted ::
  "(exn + GenerateResponse) list \<Rightarrow> 'j world \<Rightarrow> 'j GenerateOptions \<Rightarrow> exn + GenerateResponse" where
  \<comment> \<open>a model that answers its n-th call with the n-th entry of a script\<close>
  "scripted script w req =
     (if length (llm_calls w) < length script then script ! length (llm_calls w)
      else Inl (Error ''no scripted response''))"

definition example_agent :: "string \<Rightarrow> string \<Rightarrow> int \<Rightarrow> string Agent" where
  "example_agent aid mode k =
     \<lparr>agent_id = aid,
      systemPrompts = [\<lparr>sp_status = ''active'', sp_createdAt = 1,
                        sp_prompt = ''You triage alerts.''\<rparr>],
      agent_tools = [], defaultModelAlias = Some ''claude-3-opus'',
      planningMode = mode, agent_maxSteps = Some k\<rparr>"

definition bare_agent :: "string Agent" where
  \<comment> \<open>an agent with no system prompt and no model alias\<close>
  "bare_agent =
     \<lparr>agent_id = ''bare'', systemPrompts = [], agent_tools = [], defaultModelAlias = None,
      planningMode = ''single_step'', agent_maxSteps = None\<rparr>"

definition example_deps :: "(exn + GenerateResponse) list \<Rightarrow> string deps" where
  "example_deps script =
     \<lparr>JSON_parse = example_parse, JSON_stringify = (\<lambda>j. Inr (Some j)),
      generate = scripted script,
      agent_table = Inr [example_agent ''single'' ''single_step'' 10,
                         example_agent ''loop'' ''loop_with_limits'' 2,
                         example_agent ''plan'' ''plan_and_execute'' 2,
                         bare_agent],
      contextDocument_table = Inr [], agentMemory_table = Inr []\<rparr>"

definition empty_world :: "string world" where
  "empty_world = \<lparr>llm_calls = [], tool_execs = [], arrays = (\<lambda>a. [])\<rparr>"

definition lookup_call :: ToolCall where
  "lookup_call = \<lparr>tc_id = ''call_1'', func = \<lparr>fname = ''lookup_ip'', arguments = ''{}''\<rparr>\<rparr>"

definition ghost_call :: "string \<Rightarrow> ToolCall" where
  \<comment> \<open>a request for a tool that no executor is supplied for, with the given arguments\<close>
  "ghost_call args = \<lparr>tc_id = ''call_2'', func = \<lparr>fname = ''ghost'', arguments = args\<rparr>\<rparr>"

definition tool_response :: GenerateResponse where
  "tool_response =
     \<lparr>content = ''checking'', toolCalls = Some [lookup_call], finishReason = Tool_calls,
      usage = \<lparr>inputTokens = 10, outputTokens = 5, totalTokens = 15\<rparr>\<rparr>"

definition malformed_response :: GenerateResponse where
  \<comment> \<open>a response that requests \<^verbatim>\<open>lookup_ip\<close> with arguments that are not JSON\<close>
  "malformed_response =
     \<lparr>content = ''checking'',
      toolCalls = Some [\<lparr>tc_id = ''call_1'',
                         func = \<lparr>fname = ''lookup_ip'', arguments = ''{''\<rparr>\<rparr>],
      finishReason = Tool_calls,
      usage = \<lparr>inputTokens = 10, outputTokens = 5, totalTokens = 15\<rparr>\<rparr>"

definition plain_response :: "string \<Rightarrow> GenerateResponse" where
  "plain_response c =
     \<lparr>content = c, toolCalls = None, finishReason = Stop,
      usage = \<lparr>inputTokens = 20, outputTokens = 7, totalTokens = 27\<rparr>\<rparr>"

definition failing_lookup :: "string ToolExecutor" where
  \<comment> \<open>\<^verbatim>\<open>{ name: 'lookup_ip', execute: async () => { throw new Error('timeout') } }\<close>\<close>
  "failing_lookup =
     \<lparr>ex_name = ''lookup_ip'', ex_execute = (\<lambda>inp ctx w. Inl (Thrown (Some ''timeout'')))\<rparr>"

definition example_context :: ToolExecutionContext where
  "example_context = \<lparr>organizationId = ''org'', agentId = ''single'', userId = None\<rparr>"

definition example_options :: "string \<Rightarrow> string AgentExecutionOptions" where
  "example_options aid =
     \<lparr>opt_agentId = aid, opt_organizationId = ''org'', opt_userId = None,
      opt_input = ''check 1.2.3.4'', opt_previousMessages = None,
      opt_toolExecutors = Some [failing_lookup]\<rparr>"

definition example_step_options :: "string SingleStepOptions" where
  "example_step_options =
     \<lparr>o_systemPrompt = ''You triage alerts.'', o_modelAlias = ''claude-3-opus'',
      o_messages = [user_message ''check 1.2.3.4''], o_toolDefinitions = [],
      o_toolExecutors = [failing_lookup], o_context = example_context\<rparr>"

definition example_loop_options :: "string LoopOptions" where
  "example_loop_options =
     \<lparr>o_systemPrompt = ''You triage alerts.'', o_modelAlias = ''claude-3-opus'',
      o_messages = [user_message ''check 1.2.3.4''], o_toolDefinitions = [],
      o_toolExecutors = [failing_lookup], o_context = example_context, o_maxSteps = 2\<rparr>"

definition example_plan_script :: "(exn + GenerateResponse) list" where
  \<comment> \<open>a plan, then a round that requests a tool, then the answer\<close>
  "example_plan_script =
     [Inr (plain_response ''1. look the address up''), Inr tool_response,
      Inr (plain_response ''done'')]"

definition long_value :: string where
  "long_value = replicate 1001 (CHR ''a'')"

definition memory_deps :: "string deps" where
  "memory_deps =
     \<lparr>JSON_parse = example_parse, JSON_stringify = (\<lambda>j. Inr (Some j)),
      generate = scripted [], agent_table = Inr [],
      contextDocument_table = Inr
        [\<lparr>doc_agentId = Some ''single'', doc_organizationId = ''org'',
          doc_title = ''Runbook'', doc_content = Some long_value\<rparr>,
         \<lparr>doc_agentId = None, doc_organizationId = ''org'',
          doc_title = ''Empty'', doc_content = Some ''''\<rparr>],
      agentMemory_table = Inr
        [\<lparr>mem_agentId = ''single'', mem_scope = ''agent'', mem_key = ''note'',
          mem_value = long_value\<rparr>]\<rparr>"

definition bare_run :: "(exn + string AgentExecutionResult) \<times> string world" where
  "bare_run =
     execute (example_deps [Inr (plain_response ''pong'')]) (example_options ''bare'') empty_world"

definition history_world :: "string world" where
  \<comment> \<open>the caller holds one array, at reference 0, with one earlier message\<close>
  "history_world =
     \<lparr>llm_calls = [], tool_execs = [],
      arrays = (\<lambda>a. if a = 0 then [user_message ''hello''] else [])\<rparr>"

definition history_options :: "string AgentExecutionOptions" where
  "history_options =
     \<lparr>opt_agentId = ''single'', opt_organizationId = ''org'', opt_userId = None,
      opt_input = ''check 1.2.3.4'', opt_previousMessages = Some 0,
      opt_toolExecutors = None\<rparr>"

definition single_step_run :: "(exn + string AgentExecutionResult) \<times> string world" where
  \<comment> \<open>a single_step run whose first response requests \<^verbatim>\<open>lookup_ip\<close>, which throws "timeout"\<close>
  "single_step_run =
     execute (example_deps [Inr tool_response, Inr (plain_response ''done'')])
       (example_options ''single'') empty_world"

definition plan_run :: "(exn + string AgentExecutionResult) \<times> string world" where
  "plan_run = execute (example_deps example_plan_script) (example_options ''plan'') empty_world"

definition failing_store :: "(exn + GenerateResponse) list \<Rightarrow> string deps" where
  \<comment> \<open>as \<open>example_deps\<close>, but the query on the context documents rejects\<close>
  "failing_store script =
     (example_deps script)\<lparr>contextDocument_table := Inl (Error ''connection lost'')\<rparr>"

section \<open>Properties\<close>

subsection \<open>Unfolding the code and the examples\<close>

lemmas code_simps =
  execute_def agent_findUnique_def or_default_def buildToolDefinitions_def retrieveContext_def
  contextDocument_findMany_def agentMemory_findMany_def buildEnhancedSystemPrompt_def
  push_user_message_def executeSingleStep_def executePlanAndExecute_def executeLoop_def
  executeLoop_while.simps llm_generate_def has_toolCalls_def toolCalls_of_def
  executeToolCalls_def run_executor_def tool_message_def assistant_message_def
  JSON_stringify_opt_def user_message_def last_message_def plan_message_def
  default_systemPrompt_def default_modelAlias_def truthy_def document_snippet_def
  memory_snippet_def substring0_def Let_def

lemmas example_simps =
  example_deps_def scripted_def empty_world_def tool_response_def plain_response_def
  lookup_call_def ghost_call_def failing_lookup_def example_context_def
  example_step_options_def example_loop_options_def example_parse_def example_options_def
  example_agent_def bare_agent_def example_plan_script_def failing_store_def
  history_world_def history_options_def memory_deps_def

subsection \<open>The call log and the tool-execution phase\<close>

declare executeLoop_while.simps [simp del]

lemma llm_generate_eq:
  "llm_generate d req w = (generate d w req, w\<lparr>llm_calls := llm_calls w @ [(req, generate d w req)]\<rparr>)"
  by (simp add: llm_generate_def Let_def)

lemma new_calls_same [simp]: "new_calls w w = []"
  by (simp add: new_calls_def)

lemma new_calls_logged [simp]: "new_calls w (logged w req r) = [(req, r)]"
  by (simp add: new_calls_def logged_def)

lemma llm_calls_logged [simp]: "llm_calls (logged w req r) = llm_calls w @ [(req, r)]"
  by (simp add: logged_def)

lemma arrays_logged [simp]: "arrays (logged w req r) = arrays w"
  by (simp add: logged_def)

lemma tool_execs_logged [simp]: "tool_execs (logged w req r) = tool_execs w"
  by (simp add: logged_def)

lemma new_calls_eq: "llm_calls w' = llm_calls w @ new \<Longrightarrow> new_calls w w' = new"
  by (simp add: new_calls_def)

lemma new_execs_same [simp]: "new_execs w w = []"
  by (simp add: new_execs_def)

lemma new_execs_eq: "tool_execs w' = tool_execs w @ new \<Longrightarrow> new_execs w w' = new"
  by (simp add: new_execs_def)

lemma new_execs_logged [simp]: "new_execs (logged w req r) w' = new_execs w w'"
  by (simp add: new_execs_def logged_def)

lemma find_ex_name: "find (\<lambda>e. ex_name e = n) execs = Some e \<Longrightarrow> ex_name e = n"
  by (induction execs) (auto split: if_splits)

lemma executeToolCalls_loop_parse_fail:
  "JSON_parse d (arguments (func c)) = None \<Longrightarrow>
     executeToolCalls_loop d (c # cs) execs ctx acc w = (Inl SyntaxError, w)"
  by (simp add: Let_def)

lemma executeToolCalls_loop_not_found:
  "JSON_parse d (arguments (func c)) = Some inp \<Longrightarrow>
   \<not> has_executor execs (fname (func c)) \<Longrightarrow>
     executeToolCalls_loop d (c # cs) execs ctx acc w =
     executeToolCalls_loop d cs execs ctx (acc @ [not_found_result c]) w"
  by (simp add: Let_def has_executor_def not_found_result_def)

lemma executeToolCalls_loop_nullish:
  "JSON_parse d (arguments (func c)) = Some inp \<Longrightarrow>
   find (\<lambda>e. ex_name e = fname (func c)) execs = Some e \<Longrightarrow>
   ex_execute e inp ctx w = Inl ThrownNullish \<Longrightarrow>
     executeToolCalls_loop d (c # cs) execs ctx acc w =
     (Inl TypeError,
      w\<lparr>tool_execs := tool_execs w @ [(fname (func c), inp, ctx, Inl ThrownNullish)]\<rparr>)"
  using find_ex_name[of "fname (func c)" execs e]
  by (simp add: Let_def run_executor_def)

lemma executeToolCalls_loop_executed:
  "JSON_parse d (arguments (func c)) = Some inp \<Longrightarrow>
   find (\<lambda>e. ex_name e = fname (func c)) execs = Some e \<Longrightarrow>
   ex_execute e inp ctx w = outcome \<Longrightarrow> outcome \<noteq> Inl ThrownNullish \<Longrightarrow>
     executeToolCalls_loop d (c # cs) execs ctx acc w =
     executeToolCalls_loop d cs execs ctx (acc @ [executed_result c inp outcome])
       (w\<lparr>tool_execs := tool_execs w @ [(fname (func c), inp, ctx, outcome)]\<rparr>)"
  using find_ex_name[of "fname (func c)" execs e]
  by (auto simp: Let_def run_executor_def executed_result_def split: sum.splits thrown.splits)

lemma executeToolCalls_loop_cases [consumes 1, case_names parse_fail not_found nullish executed]:
  assumes "executeToolCalls_loop d (c # cs) execs ctx acc w = (res, w')"
  obtains
    "JSON_parse d (arguments (func c)) = None" "res = Inl SyntaxError" "w' = w"
  | inp where "JSON_parse d (arguments (func c)) = Some inp"
      "\<not> has_executor execs (fname (func c))"
      "executeToolCalls_loop d cs execs ctx (acc @ [not_found_result c]) w = (res, w')"
  | inp where "JSON_parse d (arguments (func c)) = Some inp"
      "has_executor execs (fname (func c))"
      "res = Inl TypeError"
      "w' = w\<lparr>tool_execs := tool_execs w @ [(fname (func c), inp, ctx, Inl ThrownNullish)]\<rparr>"
  | inp outcome where "JSON_parse d (arguments (func c)) = Some inp"
      "has_executor execs (fname (func c))" "outcome \<noteq> Inl ThrownNullish"
      "executeToolCalls_loop d cs execs ctx (acc @ [executed_result c inp outcome])
         (w\<lparr>tool_execs := tool_execs w @ [(fname (func c), inp, ctx, outcome)]\<rparr>) = (res, w')"
proof (cases "JSON_parse d (arguments (func c))")
  case None
  with assms executeToolCalls_loop_parse_fail[OF None, of cs execs ctx acc w] that(1)
  show ?thesis by simp
next
  case (Some inp)
  show ?thesis
  proof (cases "find (\<lambda>e. ex_name e = fname (func c)) execs")
    case None
    then have nf: "\<not> has_executor execs (fname (func c))"
      by (simp add: has_executor_def)
    from executeToolCalls_loop_not_found[OF Some nf, of cs ctx acc w] assms that(2)[OF Some nf]
    show ?thesis by simp
  next
    case (Some e)
    then have found: "has_executor execs (fname (func c))"
      by (simp add: has_executor_def)
    note inp = \<open>JSON_parse d (arguments (func c)) = Some inp\<close>
    show ?thesis
    proof (cases "ex_execute e inp ctx w = Inl ThrownNullish")
      case True
      from executeToolCalls_loop_nullish[OF inp Some True, of cs acc] assms
        that(3)[OF inp found]
      show ?thesis by simp
    next
      case False
      from executeToolCalls_loop_executed[OF inp Some refl False, of cs acc] assms
        that(4)[OF inp found False]
      show ?thesis by simp
    qed
  qed
qed

lemma executeToolCalls_loop_extends:
  "executeToolCalls_loop d calls execs ctx acc w = (res, w') \<Longrightarrow>
     llm_calls w' = llm_calls w \<and> arrays w' = arrays w \<and>
     (\<exists>new. tool_execs w' = tool_execs w @ new)"
proof (induction calls arbitrary: acc w)
  case Nil
  then show ?case by simp
next
  case (Cons c cs)
  from Cons.prems show ?case
  proof (cases rule: executeToolCalls_loop_cases)
    case parse_fail
    then show ?thesis by simp
  next
    case (not_found inp)
    from Cons.IH[OF not_found(3)] show ?thesis .
  next
    case (nullish inp)
    then show ?thesis by simp
  next
    case (executed inp outcome)
    from Cons.IH[OF executed(4)] show ?thesis by auto
  qed
qed

lemma executeToolCalls_loop_frame:
  assumes "executeToolCalls_loop d calls execs ctx acc w = (res, w')"
  shows "llm_calls w' = llm_calls w \<and> arrays w' = arrays w \<and>
         tool_execs w' = tool_execs w @ new_execs w w'"
  using executeToolCalls_loop_extends[OF assms] new_execs_eq[of w' w] by auto

lemma executeToolCalls_frame:
  "executeToolCalls d calls execs ctx w = (res, w') \<Longrightarrow>
     llm_calls w' = llm_calls w \<and> arrays w' = arrays w \<and>
     tool_execs w' = tool_execs w @ new_execs w w'"
  unfolding executeToolCalls_def by (rule executeToolCalls_loop_frame)

lemma new_execs_step:
  assumes "tool_execs w1 = tool_execs w @ [x]"
    and "tool_execs w' = tool_execs w1 @ new_execs w1 w'"
  shows "new_execs w w' = x # new_execs w1 w'"
proof -
  from assms have "tool_execs w' = tool_execs w @ x # new_execs w1 w'"
    by simp
  then show ?thesis by (rule new_execs_eq)
qed

lemma executeToolCalls_loop_outcome:
  "executeToolCalls_loop d calls execs ctx acc w = (res, w') \<Longrightarrow>
     list_all (\<lambda>x. has_executor execs (fst x)) (new_execs w w') \<and>
     (case res of
        Inr rs \<Rightarrow>
          (\<exists>rs'. rs = acc @ rs' \<and> map toolCallId rs' = map tc_id calls \<and>
             (\<forall>i<length calls. \<not> has_executor execs (fname (func (calls ! i))) \<longrightarrow>
                rs' ! i = not_found_result (calls ! i))) \<and>
          list_all (\<lambda>c. JSON_parse d (arguments (func c)) \<noteq> None) calls \<and>
          map fst (new_execs w w') =
            filter (has_executor execs) (map (\<lambda>c. fname (func c)) calls)
      | Inl e \<Rightarrow>
          e = SyntaxError \<and> list_ex (\<lambda>c. JSON_parse d (arguments (func c)) = None) calls \<or>
          e = TypeError \<and> list_ex rejected_nullish (new_execs w w'))"
proof (induction calls arbitrary: acc w)
  case Nil
  then show ?case by auto
next
  case (Cons c cs)
  from Cons.prems show ?case
  proof (cases rule: executeToolCalls_loop_cases)
    case parse_fail
    then show ?thesis by simp
  next
    case (not_found inp)
    note ih = Cons.IH[OF not_found(3)]
    show ?thesis
    proof (cases res)
      case (Inl e)
      with ih not_found(1,2) show ?thesis by auto
    next
      case (Inr rs)
      with ih obtain rs' where
        rs': "rs = (acc @ [not_found_result c]) @ rs'" "map toolCallId rs' = map tc_id cs"
          "\<forall>i<length cs. \<not> has_executor execs (fname (func (cs ! i))) \<longrightarrow>
             rs' ! i = not_found_result (cs ! i)"
        by auto
      have "rs = acc @ (not_found_result c # rs')"
        using rs'(1) by simp
      moreover have "map toolCallId (not_found_result c # rs') = map tc_id (c # cs)"
        using rs'(2) by (simp add: not_found_result_def)
      moreover have "\<forall>i<length (c # cs). \<not> has_executor execs (fname (func ((c # cs) ! i))) \<longrightarrow>
          (not_found_result c # rs') ! i = not_found_result ((c # cs) ! i)"
        using rs'(3) by (auto simp: nth_Cons split: nat.splits)
      ultimately have "\<exists>rs'. rs = acc @ rs' \<and> map toolCallId rs' = map tc_id (c # cs) \<and>
          (\<forall>i<length (c # cs). \<not> has_executor execs (fname (func ((c # cs) ! i))) \<longrightarrow>
             rs' ! i = not_found_result ((c # cs) ! i))"
        by blast
      with ih Inr not_found(1,2) show ?thesis by simp
    qed
  next
    case (nullish inp)
    have "new_execs w w' = [(fname (func c), inp, ctx, Inl ThrownNullish)]"
      by (rule new_execs_eq) (simp add: nullish(4))
    with nullish show ?thesis by (simp add: rejected_nullish_def)
  next
    case (executed inp outcome)
    let ?x = "(fname (func c), inp, ctx, outcome)"
    let ?w1 = "w\<lparr>tool_execs := tool_execs w @ [?x]\<rparr>"
    note ih = Cons.IH[OF executed(4)]
    have ne: "new_execs w w' = ?x # new_execs ?w1 w'"
      using executeToolCalls_loop_frame[OF executed(4)]
      by (intro new_execs_step) simp_all
    show ?thesis
    proof (cases res)
      case (Inl e)
      with ih ne executed(1,2) show ?thesis by auto
    next
      case (Inr rs)
      let ?r = "executed_result c inp outcome"
      from Inr ih obtain rs' where
        rs': "rs = (acc @ [?r]) @ rs'" "map toolCallId rs' = map tc_id cs"
          "\<forall>i<length cs. \<not> has_executor execs (fname (func (cs ! i))) \<longrightarrow>
             rs' ! i = not_found_result (cs ! i)"
        by auto
      have "rs = acc @ (?r # rs')"
        using rs'(1) by simp
      moreover have "map toolCallId (?r # rs') = map tc_id (c # cs)"
        using rs'(2) by (simp add: executed_result_def split: sum.splits)
      moreover have "\<forall>i<length (c # cs). \<not> has_executor execs (fname (func ((c # cs) ! i))) \<longrightarrow>
          (?r # rs') ! i = not_found_result ((c # cs) ! i)"
        using rs'(3) executed(2) by (auto simp: nth_Cons split: nat.splits)
      ultimately have "\<exists>rs'. rs = acc @ rs' \<and> map toolCallId rs' = map tc_id (c # cs) \<and>
          (\<forall>i<length (c # cs). \<not> has_executor execs (fname (func ((c # cs) ! i))) \<longrightarrow>
             rs' ! i = not_found_result ((c # cs) ! i))"
        by blast
      with ih Inr ne executed(1,2) show ?thesis by simp
    qed
  qed
qed

lemma executeToolCalls_ids:
  assumes "executeToolCalls d calls execs ctx w = (Inr rs, w')"
  shows "map toolCallId rs = map tc_id calls"
  using executeToolCalls_loop_outcome[OF assms[unfolded executeToolCalls_def]] by auto

lemma has_toolCalls_iff: "has_toolCalls response \<longleftrightarrow> 1 \<le> length (toolCalls_of response)"
  by (cases "toolCalls response") (auto simp: has_toolCalls_def toolCalls_of_def Suc_le_eq)

lemma no_toolCalls_of: "\<not> has_toolCalls response \<Longrightarrow> toolCalls_of response = []"
  by (simp add: has_toolCalls_def toolCalls_of_def split: option.splits)

lemma tool_messages_ids:
  "tool_messages d results = Inr ms \<Longrightarrow>
     map tool_call_id ms = map (\<lambda>r. Some (toolCallId r)) results \<and>
     list_all (\<lambda>m. role m = Tool) ms"
proof (induction results arbitrary: ms)
  case Nil
  then show ?case by simp
next
  case (Cons r rs)
  then show ?case
    by (auto simp: tool_message_def split: sum.splits)
qed

text \<open>
  Claim C7, as the code has it. An exception escapes the tool-execution phase in two cases
  only: \<^verbatim>\<open>JSON.parse\<close> rejects the arguments of a request (they are parsed before the
  executor is looked up, outside the \<^verbatim>\<open>try\<close> block), or an executor that was found and
  invoked rejects with \<^verbatim>\<open>null\<close> or \<^verbatim>\<open>undefined\<close> (the catch block reads
  \<^verbatim>\<open>error.message\<close>). A request whose tool name matches no supplied executor causes
  neither by being unmatched: in every outcome the executors invoked are those of requests
  that have a match, and when the phase returns there is one result per request, in order,
  every request's arguments were well-formed, the invocations are exactly the matched
  requests, and every unmatched request has the synthesized result whose error text is
  \<open>''Tool executor not found: ''\<close> followed by the requested name.
\<close>

theorem tool_not_found_is_reported:
  assumes "executeToolCalls d calls execs ctx w = (res, w')"
  shows "tool_execs w' = tool_execs w @ new_execs w w' \<and>
         list_all (\<lambda>x. has_executor execs (fst x)) (new_execs w w') \<and>
         (case res of
            Inr rs \<Rightarrow>
              length rs = length calls \<and>
              (\<forall>i<length calls. \<not> has_executor execs (fname (func (calls ! i))) \<longrightarrow>
                 rs ! i = \<lparr>toolCallId = tc_id (calls ! i), toolName = fname (func (calls ! i)),
                           tr_input = None, tr_output = None,
                           tr_error = Some (''Tool executor not found: '' @
                                            fname (func (calls ! i)))\<rparr>) \<and>
              list_all (\<lambda>c. JSON_parse d (arguments (func c)) \<noteq> None) calls \<and>
              map fst (new_execs w w') =
                filter (has_executor execs) (map (\<lambda>c. fname (func c)) calls)
          | Inl e \<Rightarrow>
              e = SyntaxError \<and>
                list_ex (\<lambda>c. JSON_parse d (arguments (func c)) = None) calls \<or>
              e = TypeError \<and>
                list_ex (\<lambda>x. snd (snd (snd x)) = Inl ThrownNullish) (new_execs w w'))"
proof -
  note run = assms[unfolded executeToolCalls_def]
  note out = executeToolCalls_loop_outcome[OF run]
  have ext: "tool_execs w' = tool_execs w @ new_execs w w'"
    using executeToolCalls_loop_frame[OF run] by simp
  show ?thesis
  proof (cases res)
    case (Inl e)
    with out ext show ?thesis
      by (simp add: rejected_nullish_def[abs_def])
  next
    case (Inr rs)
    with out obtain rs' where
      rs': "rs = [] @ rs'" "map toolCallId rs' = map tc_id calls"
        "\<forall>i<length calls. \<not> has_executor execs (fname (func (calls ! i))) \<longrightarrow>
           rs' ! i = not_found_result (calls ! i)"
      by auto
    from rs'(1,2) have "length rs = length calls"
      by (metis append_Nil length_map)
    with out ext Inr rs'(1,3) show ?thesis
      by (simp add: not_found_result_def)
  qed
qed

theorem tool_not_found_is_reported_witness:
  "\<exists>rs w'. executeToolCalls (example_deps []) [lookup_call, ghost_call ''{}''] [failing_lookup]
              example_context empty_world = (Inr rs, w') \<and>
           rs ! 1 = \<lparr>toolCallId = ''call_2'', toolName = ''ghost'', tr_input = None,
                     tr_output = None, tr_error = Some ''Tool executor not found: ghost''\<rparr> \<and>
           map fst (tool_execs w') = [''lookup_ip'']"
proof -
  let ?run = "executeToolCalls (example_deps []) [lookup_call, ghost_call ''{}''] [failing_lookup]
                example_context empty_world"
  obtain res w' where run: "?run = (res, w')"
    by (cases ?run) blast
  have "\<exists>rs. fst ?run = Inr rs"
    by (simp add: executeToolCalls_def example_deps_def example_parse_def lookup_call_def
          ghost_call_def failing_lookup_def run_executor_def Let_def)
  with run obtain rs where rs: "res = Inr rs"
    by auto
  have ghost: "\<not> has_executor [failing_lookup] (fname (func ([lookup_call, ghost_call ''{}''] ! 1)))"
    by (simp add: has_executor_def failing_lookup_def ghost_call_def)
  from tool_not_found_is_reported[OF run[unfolded rs]] ghost
  have "rs ! 1 = \<lparr>toolCallId = ''call_2'', toolName = ''ghost'', tr_input = None,
                    tr_output = None, tr_error = Some ''Tool executor not found: ghost''\<rparr>"
    and "map fst (tool_execs w') = [''lookup_ip'']"
    by (simp_all add: has_executor_def failing_lookup_def lookup_call_def ghost_call_def
          empty_world_def)
  with run[unfolded rs] show ?thesis
    by (intro exI[of _ rs] exI[of _ w'] conjI)
qed

theorem tool_not_found_malformed_arguments:
  "\<not> has_executor [failing_lookup] (fname (func (ghost_call ''{''))) \<and>
   executeToolCalls (example_deps []) [ghost_call ''{''] [failing_lookup]
     example_context empty_world = (Inl SyntaxError, empty_world)"
  by (simp add: has_executor_def failing_lookup_def ghost_call_def executeToolCalls_def
        example_deps_def example_parse_def)

subsection \<open>The loop of executeLoop\<close>

lemma tool_round_frame:
  assumes "tool_round d options response w1 = (res, w2)"
  shows "llm_calls w2 = llm_calls w1 \<and> arrays w2 = arrays w1"
proof -
  obtain tres w3 where tc: "executeToolCalls d (toolCalls_of response) (o_toolExecutors options)
      (o_context options) w1 = (tres, w3)"
    by (cases "executeToolCalls d (toolCalls_of response) (o_toolExecutors options)
      (o_context options) w1") blast
  with assms have "w2 = w3"
    by (auto simp: tool_round_def split: sum.splits)
  with executeToolCalls_frame[OF tc] show ?thesis by simp
qed

lemma tool_round_results:
  assumes "tool_round d options response w1 = (Inr (toolResults, toolMessages), w2)"
  shows "executeToolCalls d (toolCalls_of response) (o_toolExecutors options)
           (o_context options) w1 = (Inr toolResults, w2) \<and>
         tool_messages d toolResults = Inr toolMessages"
  using assms by (auto simp: tool_round_def split: sum.splits prod.splits)

lemma executeLoop_while_cases [consumes 1, case_names exit llm_fail final tool_fail continue]:
  assumes "executeLoop_while d options v w = (res, w')"
  obtains
    "\<not> iteration v < o_maxSteps options" "res = Inr v" "w' = w"
  | e where "iteration v < o_maxSteps options"
      "generate d w (loop_request options v) = Inl e"
      "res = Inl e" "w' = logged w (loop_request options v) (Inl e)"
  | response where "iteration v < o_maxSteps options"
      "generate d w (loop_request options v) = Inr response"
      "\<not> has_toolCalls response"
      "res = Inr (after_llm v response)" "w' = logged w (loop_request options v) (Inr response)"
  | response e where "iteration v < o_maxSteps options"
      "generate d w (loop_request options v) = Inr response"
      "has_toolCalls response"
      "tool_round d options response (logged w (loop_request options v) (Inr response)) =
         (Inl e, w')"
      "res = Inl e"
  | response toolResults toolMessages w2 where "iteration v < o_maxSteps options"
      "generate d w (loop_request options v) = Inr response"
      "has_toolCalls response"
      "tool_round d options response (logged w (loop_request options v) (Inr response)) =
         (Inr (toolResults, toolMessages), w2)"
      "executeLoop_while d options
         (after_tools (after_llm v response) response toolResults toolMessages) w2 = (res, w')"
proof (cases "iteration v < o_maxSteps options")
  case False
  with assms have "res = Inr v" "w' = w"
    by (simp_all add: executeLoop_while.simps[of d options v w])
  with False show ?thesis using that(1) by blast
next
  case True
  note lt = this
  show ?thesis
  proof (cases "generate d w (loop_request options v)")
    case (Inl e)
    with assms lt have "res = Inl e" "w' = logged w (loop_request options v) (Inl e)"
      by (simp_all add: executeLoop_while.simps[of d options v w] llm_generate_eq
            loop_request_def logged_def)
    with lt Inl show ?thesis using that(2) by blast
  next
    case (Inr response)
    note gen = this
    show ?thesis
    proof (cases "has_toolCalls response")
      case False
      with assms lt gen have "res = Inr (after_llm v response)"
          "w' = logged w (loop_request options v) (Inr response)"
        by (simp_all add: executeLoop_while.simps[of d options v w] llm_generate_eq
              loop_request_def logged_def after_llm_def Let_def)
      with lt gen False show ?thesis using that(3) by blast
    next
      case True
      let ?w1 = "logged w (loop_request options v) (Inr response)"
      obtain tres w2 where tr: "tool_round d options response ?w1 = (tres, w2)"
        by (cases "tool_round d options response ?w1") blast
      show ?thesis
      proof (cases tres)
        case (Inl e)
        with assms lt gen True tr have "res = Inl e" "w' = w2"
          by (auto simp: executeLoop_while.simps[of d options v w] llm_generate_eq
                loop_request_def logged_def Let_def tool_round_def
                split: sum.splits prod.splits)
        with lt gen True tr Inl show ?thesis using that(4) by blast
      next
        case (Inr pair)
        obtain toolResults toolMessages where pair: "pair = (toolResults, toolMessages)"
          by (cases pair) blast
        with assms lt gen True tr Inr have
          "executeLoop_while d options
             (after_tools (after_llm v response) response toolResults toolMessages) w2 = (res, w')"
          by (auto simp: executeLoop_while.simps[of d options v w] llm_generate_eq
                loop_request_def logged_def Let_def after_llm_def after_tools_def tool_round_def
                split: sum.splits prod.splits)
        with lt gen True tr Inr pair show ?thesis using that(5) by blast
      qed
    qed
  qed
qed

lemma executeLoop_while_extends:
  "executeLoop_while d options v w = (res, w') \<Longrightarrow>
     (\<exists>new. llm_calls w' = llm_calls w @ new) \<and> arrays w' = arrays w"
proof (induction "nat (o_maxSteps options - iteration v)" arbitrary: v w rule: less_induct)
  case less
  from less.prems show ?case
  proof (cases rule: executeLoop_while_cases)
    case exit
    then show ?thesis by simp
  next
    case (llm_fail e)
    then show ?thesis by simp
  next
    case (final response)
    then show ?thesis by simp
  next
    case (tool_fail response e)
    from tool_round_frame[OF tool_fail(4)] show ?thesis by simp
  next
    case (continue response toolResults toolMessages w2)
    let ?v2 = "after_tools (after_llm v response) response toolResults toolMessages"
    have "nat (o_maxSteps options - iteration ?v2) < nat (o_maxSteps options - iteration v)"
      using continue(1) by (simp add: after_tools_def after_llm_def)
    from less.hyps[OF this continue(5)] obtain new where
      a: "llm_calls w' = llm_calls w2 @ new" and c: "arrays w' = arrays w2"
      by blast
    from tool_round_frame[OF continue(4)] a c show ?thesis by simp
  qed
qed

lemma executeLoop_while_new_calls:
  "executeLoop_while d options v w = (res, w') \<Longrightarrow> llm_calls w' = llm_calls w @ new_calls w w'"
  using executeLoop_while_extends[of d options v w res w'] new_calls_eq[of w' w] by auto

lemma executeLoop_while_induct
  [consumes 1, case_names exit llm_fail final tool_fail continue]:
  assumes run: "executeLoop_while d options v w = (res, w')"
    and exit: "\<And>v w. \<not> iteration v < o_maxSteps options \<Longrightarrow> P v w (Inr v) w []"
    and llm_fail: "\<And>v w e. iteration v < o_maxSteps options \<Longrightarrow>
        generate d w (loop_request options v) = Inl e \<Longrightarrow>
        P v w (Inl e) (logged w (loop_request options v) (Inl e))
          [(loop_request options v, Inl e)]"
    and final: "\<And>v w response. iteration v < o_maxSteps options \<Longrightarrow>
        generate d w (loop_request options v) = Inr response \<Longrightarrow>
        \<not> has_toolCalls response \<Longrightarrow>
        P v w (Inr (after_llm v response)) (logged w (loop_request options v) (Inr response))
          [(loop_request options v, Inr response)]"
    and tool_fail: "\<And>v w response e w'. iteration v < o_maxSteps options \<Longrightarrow>
        generate d w (loop_request options v) = Inr response \<Longrightarrow>
        has_toolCalls response \<Longrightarrow>
        tool_round d options response (logged w (loop_request options v) (Inr response)) =
          (Inl e, w') \<Longrightarrow>
        P v w (Inl e) w' [(loop_request options v, Inr response)]"
    and continue: "\<And>v w response toolResults toolMessages w2 res w' new.
        iteration v < o_maxSteps options \<Longrightarrow>
        generate d w (loop_request options v) = Inr response \<Longrightarrow>
        has_toolCalls response \<Longrightarrow>
        tool_round d options response (logged w (loop_request options v) (Inr response)) =
          (Inr (toolResults, toolMessages), w2) \<Longrightarrow>
        executeLoop_while d options
          (after_tools (after_llm v response) response toolResults toolMessages) w2 = (res, w') \<Longrightarrow>
        P (after_tools (after_llm v response) response toolResults toolMessages) w2 res w' new \<Longrightarrow>
        P v w res w' ((loop_request options v, Inr response) # new)"
  shows "P v w res w' (new_calls w w')"
  using run
proof (induction "nat (o_maxSteps options - iteration v)" arbitrary: v w rule: less_induct)
  case less
  from less.prems show ?case
  proof (cases rule: executeLoop_while_cases)
    case exit
    with assms(2)[of v w] show ?thesis by simp
  next
    case (llm_fail e)
    with assms(3)[of v w e] show ?thesis by simp
  next
    case (final response)
    with assms(4)[of v w response] show ?thesis by simp
  next
    case (tool_fail response e)
    from tool_round_frame[OF tool_fail(4)]
    have "new_calls w w' = [(loop_request options v, Inr response)]"
      by (intro new_calls_eq) simp
    with assms(5)[OF tool_fail(1-4)] tool_fail(5) show ?thesis by simp
  next
    case (continue response toolResults toolMessages w2)
    let ?v2 = "after_tools (after_llm v response) response toolResults toolMessages"
    have m: "nat (o_maxSteps options - iteration ?v2) < nat (o_maxSteps options - iteration v)"
      using continue(1) by (simp add: after_tools_def after_llm_def)
    have ih: "P ?v2 w2 res w' (new_calls w2 w')"
      by (rule less.hyps[OF m continue(5)])
    have a: "llm_calls w' = llm_calls w2 @ new_calls w2 w'"
      by (rule executeLoop_while_new_calls[OF continue(5)])
    have b: "llm_calls w2 = llm_calls w @ [(loop_request options v, Inr response)]"
      using tool_round_frame[OF continue(4)] by simp
    have "new_calls w w' = (loop_request options v, Inr response) # new_calls w2 w'"
      by (rule new_calls_eq) (simp add: a b)
    with assms(6)[OF continue(1-5) ih] show ?thesis by simp
  qed
qed

lemma loop_count:
  assumes "executeLoop_while d options v w = (res, w')"
  shows "int (length (new_calls w w')) \<le> max 0 (o_maxSteps options - iteration v)"
  using assms
proof (induct rule: executeLoop_while_induct)
  case (continue v w response toolResults toolMessages w2 res w' new)
  then show ?case by (simp add: after_tools_def after_llm_def)
qed simp_all

lemma loop_requests:
  assumes "executeLoop_while d options v w = (res, w')"
  shows "list_all (\<lambda>x. loop_call_ok options (currentMessages v) (fst x)) (new_calls w w')"
  using assms
proof (induct rule: executeLoop_while_induct)
  case (continue v w response toolResults toolMessages w2 res w' new)
  have "\<And>req. loop_call_ok options
           (currentMessages (after_tools (after_llm v response) response toolResults toolMessages)) req \<Longrightarrow>
         loop_call_ok options (currentMessages v) req"
    by (auto simp: loop_call_ok_def after_tools_def after_llm_def dest: append_prefixD)
  with continue(6) have "list_all (\<lambda>x. loop_call_ok options (currentMessages v) (fst x)) new"
    by (auto simp: list_all_iff)
  then show ?case by (simp add: loop_call_ok_def loop_request_def)
qed (simp_all add: loop_call_ok_def loop_request_def)


lemma loop_failure_after_call:
  assumes "executeLoop_while d options v w = (Inl e, w')"
  shows "new_calls w w' \<noteq> []"
proof -
  have "\<forall>e. res = Inl e \<longrightarrow> new_calls w w' \<noteq> []"
    if "executeLoop_while d options v w = (res, w')" for res
    using that by (induct rule: executeLoop_while_induct) simp_all
  with assms show ?thesis by blast
qed


lemma loop_accounting:
  assumes "executeLoop_while d options v w = (Inr v', w')"
  shows "totalInputTokens v' = totalInputTokens v + sum_inputTokens (new_calls w w') \<and>
         totalOutputTokens v' = totalOutputTokens v + sum_outputTokens (new_calls w w') \<and>
         lv_toolCallsExecuted v' = lv_toolCallsExecuted v + sum_toolCalls (new_calls w w')"
proof -
  have "case res of Inl e \<Rightarrow> True | Inr v' \<Rightarrow>
          totalInputTokens v' = totalInputTokens v + sum_inputTokens (new_calls w w') \<and>
          totalOutputTokens v' = totalOutputTokens v + sum_outputTokens (new_calls w w') \<and>
          lv_toolCallsExecuted v' = lv_toolCallsExecuted v + sum_toolCalls (new_calls w w')"
    if "executeLoop_while d options v w = (res, w')" for res
    using that
  proof (induct rule: executeLoop_while_induct)
    case (continue v w response toolResults toolMessages w2 res w' new)
    then show ?case
      by (cases res)
         (simp_all add: sum_inputTokens_def sum_outputTokens_def sum_toolCalls_def
            after_tools_def after_llm_def)
  qed (simp_all add: sum_inputTokens_def sum_outputTokens_def sum_toolCalls_def after_llm_def
         no_toolCalls_of)
  from this[OF assms] show ?thesis by simp
qed

lemma loop_steps:
  assumes "executeLoop_while d options v w = (Inr v', w')"
  shows "\<exists>ss. lv_steps v' = lv_steps v @ ss \<and> \<not> list_ex is_planning_step ss \<and>
           length (llm_call_steps ss) = length (new_calls w w')"
proof -
  have "case res of Inl e \<Rightarrow> True | Inr v' \<Rightarrow>
          (\<exists>ss. lv_steps v' = lv_steps v @ ss \<and> \<not> list_ex is_planning_step ss \<and>
             length (llm_call_steps ss) = length (new_calls w w'))"
    if "executeLoop_while d options v w = (res, w')" for res
    using that
  proof (induct rule: executeLoop_while_induct)
    case (continue v w response toolResults toolMessages w2 res w' new)
    show ?case
    proof (cases res)
      case (Inl e)
      then show ?thesis by simp
    next
      case (Inr v')
      with continue(6) obtain ss where
        ss: "lv_steps v' =
               lv_steps (after_tools (after_llm v response) response toolResults toolMessages) @ ss"
          "\<not> list_ex is_planning_step ss" "length (llm_call_steps ss) = length new"
        by auto
      let ?pre = "[\<lparr>step_type = Llm_call,
                     step_data = Iteration (iteration v + 1) (content response)
                                   (toolCalls response)\<rparr>,
                   \<lparr>step_type = Tool_call, step_data = Results toolResults\<rparr>]"
      have "lv_steps v' = lv_steps v @ (?pre @ ss)"
        using ss(1) by (simp add: after_tools_def after_llm_def)
      moreover have "\<not> list_ex is_planning_step (?pre @ ss)"
        using ss(2) by (simp add: is_planning_step_def)
      moreover have "length (llm_call_steps (?pre @ ss)) =
                     length ((loop_request options v, Inr response) # new)"
        using ss(3) by (simp add: llm_call_steps_def)
      ultimately show ?thesis using Inr by (simp del: append_Cons)
    qed
  next
    case (final v w response)
    have "lv_steps (after_llm v response) = lv_steps v @
        [\<lparr>step_type = Llm_call,
          step_data = Iteration (iteration v + 1) (content response) (toolCalls response)\<rparr>]"
      by (simp add: after_llm_def)
    then show ?case
      by (simp add: is_planning_step_def llm_call_steps_def)
  qed (simp_all add: llm_call_steps_def)
  from this[OF assms] show ?thesis by simp
qed


lemma executeLoop_cases [consumes 1, case_names fail return]:
  assumes "executeLoop d options w = (res, w')"
  obtains e where "executeLoop_while d options (loop_init options) w = (Inl e, w')" "res = Inl e"
  | v where "executeLoop_while d options (loop_init options) w = (Inr v, w')"
      "res = Inr (loop_result v)"
proof -
  obtain lres w2 where run: "executeLoop_while d options (loop_init options) w = (lres, w2)"
    by (cases "executeLoop_while d options (loop_init options) w") blast
  show ?thesis
  proof (cases lres)
    case (Inl e)
    with assms run that(1) show ?thesis
      by (simp add: executeLoop_def loop_init_def)
  next
    case (Inr v)
    with assms run that(2) show ?thesis
      by (simp add: executeLoop_def loop_init_def loop_result_def)
  qed
qed



subsection \<open>executeSingleStep\<close>

lemma executeSingleStep_cases [consumes 1, case_names llm_fail plain tool_fail final_fail final]:
  assumes "executeSingleStep d options w = (res, w')"
  obtains
    e where "generate d w (first_request options) = Inl e" "res = Inl e"
      "w' = logged w (first_request options) (Inl e)"
  | response where "generate d w (first_request options) = Inr response"
      "\<not> has_toolCalls response"
      "res = Inr \<lparr>r_output = content response, toolCallsExecuted = 0,
                  steps = [\<lparr>step_type = Llm_call,
                            step_data = FirstCall (last_message (o_messages options))
                                          (content response) (toolCalls response)\<rparr>],
                  res_usage = usage response\<rparr>"
      "w' = logged w (first_request options) (Inr response)"
  | response e where "generate d w (first_request options) = Inr response"
      "has_toolCalls response"
      "tool_round d options response (logged w (first_request options) (Inr response)) =
         (Inl e, w')"
      "res = Inl e"
  | response toolResults toolMessages w2 e where
      "generate d w (first_request options) = Inr response"
      "has_toolCalls response"
      "tool_round d options response (logged w (first_request options) (Inr response)) =
         (Inr (toolResults, toolMessages), w2)"
      "generate d w2 (second_request options response toolMessages) = Inl e"
      "res = Inl e"
      "w' = logged w2 (second_request options response toolMessages) (Inl e)"
  | response toolResults toolMessages w2 finalResponse where
      "generate d w (first_request options) = Inr response"
      "has_toolCalls response"
      "tool_round d options response (logged w (first_request options) (Inr response)) =
         (Inr (toolResults, toolMessages), w2)"
      "generate d w2 (second_request options response toolMessages) = Inr finalResponse"
      "res = Inr (single_step_result options response toolResults finalResponse)"
      "w' = logged w2 (second_request options response toolMessages) (Inr finalResponse)"
proof (cases "generate d w (first_request options)")
  case (Inl e)
  with assms have "res = Inl e" "w' = logged w (first_request options) (Inl e)"
    by (simp_all add: executeSingleStep_def llm_generate_eq first_request_def logged_def)
  with Inl show ?thesis using that(1) by blast
next
  case (Inr response)
  note gen = this
  show ?thesis
  proof (cases "has_toolCalls response")
    case False
    with assms gen show ?thesis using that(2)
      by (simp add: executeSingleStep_def llm_generate_eq first_request_def logged_def Let_def)
  next
    case True
    let ?w1 = "logged w (first_request options) (Inr response)"
    obtain tres w2 where tr: "tool_round d options response ?w1 = (tres, w2)"
      by (cases "tool_round d options response ?w1") blast
    show ?thesis
    proof (cases tres)
      case (Inl e)
      with assms gen True tr have "res = Inl e" "w' = w2"
        by (auto simp: executeSingleStep_def llm_generate_eq first_request_def logged_def
              Let_def tool_round_def split: sum.splits prod.splits)
      with gen True tr Inl show ?thesis using that(3) by blast
    next
      case (Inr pair)
      obtain toolResults toolMessages where pair: "pair = (toolResults, toolMessages)"
        by (cases pair) blast
      note tr' = tr[unfolded Inr pair]
      show ?thesis
      proof (cases "generate d w2 (second_request options response toolMessages)")
        case (Inl e)
        with assms gen True tr' have "res = Inl e"
            "w' = logged w2 (second_request options response toolMessages) (Inl e)"
          by (auto simp: executeSingleStep_def llm_generate_eq first_request_def logged_def
                Let_def second_request_def tool_round_def split: sum.splits prod.splits)
        with gen True tr' Inl show ?thesis using that(4) by blast
      next
        case (Inr finalResponse)
        with assms gen True tr' have
          "res = Inr (single_step_result options response toolResults finalResponse)"
          "w' = logged w2 (second_request options response toolMessages) (Inr finalResponse)"
          by (auto simp: executeSingleStep_def llm_generate_eq first_request_def logged_def
                Let_def second_request_def tool_round_def single_step_result_def
                split: sum.splits prod.splits)
        with gen True tr' Inr show ?thesis using that(5) by blast
      qed
    qed
  qed
qed

lemma tool_round_ids:
  assumes "tool_round d options response w1 = (Inr (toolResults, toolMessages), w2)"
  shows "map toolCallId toolResults = map tc_id (toolCalls_of response) \<and>
         map tool_call_id toolMessages = map (\<lambda>c. Some (tc_id c)) (toolCalls_of response)"
proof -
  note r = tool_round_results[OF assms]
  from r have ids: "map toolCallId toolResults = map tc_id (toolCalls_of response)"
    using executeToolCalls_ids by blast
  from r tool_messages_ids[of d toolResults toolMessages]
  have "map tool_call_id toolMessages = map (\<lambda>r. Some (toolCallId r)) toolResults"
    by simp
  also have "\<dots> = map Some (map toolCallId toolResults)"
    by simp
  also have "\<dots> = map (\<lambda>c. Some (tc_id c)) (toolCalls_of response)"
    unfolding ids by simp
  finally show ?thesis using ids by simp
qed

text \<open>
  Claim C6, as the code has it. Take a single_step run whose first model call returns a
  response. If the response requests no tool calls, the run made that one model call and
  returns its content with a tool-call count of 0. If it requests N \<ge> 1 tool calls, the tool
  round follows (the tool-execution phase, then one tool message per result):
  \<^item> if the round throws, the run fails with that exception after its one model call;
  \<^item> otherwise the run makes exactly two model calls; the second offers no tools, and its
    conversation is the original one followed by the assistant message and one tool message
    per request, in the order of the requests; if the second call throws, the run fails with
    its error, and if it returns, the result counts N tool calls and carries the content of
    the second response.
\<close>

theorem single_step_model_calls:
  assumes "executeSingleStep d options w = (res, w')"
    and "generate d w (first_request options) = Inr response"
  shows "if 1 \<le> length (toolCalls_of response)
     then (case tool_round d options response
                 (logged w (first_request options) (Inr response)) of
             (Inl e, w2) \<Rightarrow>
               res = Inl e \<and>
               llm_calls w' = llm_calls w @ [(first_request options, Inr response)]
           | (Inr (toolResults, toolMessages), w2) \<Rightarrow>
               (\<exists>outcome.
                  llm_calls w' = llm_calls w @
                    [(first_request options, Inr response),
                     (second_request options response toolMessages, outcome)] \<and>
                  (case outcome of
                     Inl e \<Rightarrow> res = Inl e
                   | Inr finalResponse \<Rightarrow>
                       (\<exists>r. res = Inr r \<and>
                          toolCallsExecuted r = length (toolCalls_of response) \<and>
                          r_output r = content finalResponse))) \<and>
               tools (second_request options response toolMessages) = None \<and>
               toolChoice (second_request options response toolMessages) = None \<and>
               messages (second_request options response toolMessages) =
                 o_messages options @ [assistant_message response] @ toolMessages \<and>
               map toolCallId toolResults = map tc_id (toolCalls_of response) \<and>
               map tool_call_id toolMessages =
                 map (\<lambda>c. Some (tc_id c)) (toolCalls_of response))
     else (\<exists>r. res = Inr r \<and>
             llm_calls w' = llm_calls w @ [(first_request options, Inr response)] \<and>
             toolCallsExecuted r = 0 \<and> r_output r = content response)"
  using assms(1)
proof (cases rule: executeSingleStep_cases)
  case (llm_fail e)
  with assms(2) show ?thesis by simp
next
  case (plain response')
  with assms(2) show ?thesis by (auto simp: has_toolCalls_iff)
next
  case (tool_fail response' e)
  with assms(2) have r: "response' = response" by simp
  from tool_round_frame[OF tool_fail(3)] tool_fail r show ?thesis
    by (simp add: has_toolCalls_iff)
next
  case (final_fail response' toolResults toolMessages w2 e)
  with assms(2) have r: "response' = response" by simp
  from tool_round_frame[OF final_fail(3)] tool_round_ids[OF final_fail(3)] final_fail r
  show ?thesis
    by (simp add: has_toolCalls_iff second_request_def)
next
  case (final response' toolResults toolMessages w2 finalResponse)
  with assms(2) have r: "response' = response" by simp
  from tool_round_frame[OF final(3)] tool_round_ids[OF final(3)] final r
  show ?thesis
    by (simp add: has_toolCalls_iff second_request_def single_step_result_def)
qed

theorem single_step_model_calls_witness:
  "\<exists>res w'. executeSingleStep (example_deps [Inr tool_response, Inr (plain_response ''done'')])
               example_step_options empty_world = (res, w') \<and>
            length (llm_calls w') = 2 \<and> map_sum id r_output res = Inr ''done''"
proof -
  let ?d = "example_deps [Inr tool_response, Inr (plain_response ''done'')]"
  obtain res w' where run: "executeSingleStep ?d example_step_options empty_world = (res, w')"
    by (cases "executeSingleStep ?d example_step_options empty_world") blast
  have gen: "generate ?d empty_world (first_request example_step_options) = Inr tool_response"
    by (simp add: example_simps)
  have n: "1 \<le> length (toolCalls_of tool_response)"
    by (simp add: toolCalls_of_def tool_response_def)
  have "\<exists>toolResults toolMessages w2.
      tool_round ?d example_step_options tool_response
        (logged empty_world (first_request example_step_options) (Inr tool_response)) =
          (Inr (toolResults, toolMessages), w2)"
    by (simp add: tool_round_def code_simps example_simps logged_def)
  then obtain toolResults toolMessages w2 where
    round: "tool_round ?d example_step_options tool_response
        (logged empty_world (first_request example_step_options) (Inr tool_response)) =
          (Inr (toolResults, toolMessages), w2)"
    by blast
  from single_step_model_calls[OF run gen] n round
  have "length (llm_calls w') = 2"
    by (auto simp: empty_world_def)
  moreover have "map_sum id r_output
      (fst (executeSingleStep ?d example_step_options empty_world)) = Inr ''done''"
    by (simp add: code_simps example_simps)
  ultimately show ?thesis using run by simp
qed

theorem single_step_malformed_arguments:
  "generate (example_deps [Inr malformed_response, Inr (plain_response ''done'')]) empty_world
     (first_request example_step_options) = Inr malformed_response \<and>
   length (toolCalls_of malformed_response) = 1 \<and>
   fst (executeSingleStep (example_deps [Inr malformed_response, Inr (plain_response ''done'')])
          example_step_options empty_world) = Inl SyntaxError \<and>
   length (llm_calls (snd (executeSingleStep
      (example_deps [Inr malformed_response, Inr (plain_response ''done'')])
      example_step_options empty_world))) = 1"
  by (simp add: code_simps example_simps malformed_response_def)

subsection \<open>executePlanAndExecute\<close>

lemma executePlanAndExecute_cases [consumes 1, case_names plan_fail planned]:
  assumes "executePlanAndExecute d options w = (res, w')"
  obtains e where "generate d w (planning_request options) = Inl e" "res = Inl e"
      "w' = logged w (planning_request options) (Inl e)"
  | planResponse where "generate d w (planning_request options) = Inr planResponse"
      "executeLoop d (options\<lparr>o_messages := o_messages options @ [plan_message planResponse]\<rparr>)
         (logged w (planning_request options) (Inr planResponse)) = (res, w')"
proof (cases "generate d w (planning_request options)")
  case (Inl e)
  with assms that(1) show ?thesis
    by (simp add: executePlanAndExecute_def llm_generate_eq planning_request_def logged_def
          Let_def)
next
  case (Inr planResponse)
  with assms that(2) show ?thesis
    by (simp add: executePlanAndExecute_def llm_generate_eq planning_request_def logged_def
          Let_def)
qed

lemma executeLoop_run:
  assumes "executeLoop d options w = (res, w')"
  shows "\<exists>lres. executeLoop_while d options (loop_init options) w = (lres, w')"
  using assms by (cases rule: executeLoop_cases) blast+

lemma executeLoop_log:
  assumes "executeLoop d options w = (res, w')"
  shows "llm_calls w' = llm_calls w @ new_calls w w'"
    and "arrays w' = arrays w"
    and "int (length (new_calls w w')) \<le> max 0 (o_maxSteps options)"
    and "list_all (\<lambda>x. loop_call_ok options (o_messages options) (fst x)) (new_calls w w')"
proof -
  from executeLoop_run[OF assms] obtain lres where
    run: "executeLoop_while d options (loop_init options) w = (lres, w')"
    by blast
  from executeLoop_while_new_calls[OF run] executeLoop_while_extends[OF run]
    loop_count[OF run] loop_requests[OF run]
  show "llm_calls w' = llm_calls w @ new_calls w w'" "arrays w' = arrays w"
    "int (length (new_calls w w')) \<le> max 0 (o_maxSteps options)"
    "list_all (\<lambda>x. loop_call_ok options (o_messages options) (fst x)) (new_calls w w')"
    by (simp_all add: loop_init_def)
qed

text \<open>
  Claim C8. A plan_and_execute run starts with one model call that offers no tools and whose
  system prompt is the run's system prompt followed by two newlines and the sentence
  "Create a step-by-step plan to accomplish the user's request. List the steps clearly.".
  If that call fails, the run fails with its error. Otherwise the run is, from there on, the
  loop_with_limits strategy (\<open>executeLoop\<close>) with the same options, on the conversation
  extended by the assistant message "Plan:", newline, the plan, two newlines,
  "Now executing this plan...": it has the loop's result, and every later model call is a
  call of the loop (tools offered, the unaugmented system prompt, a conversation that extends
  the one with the plan message), at most \<open>maxSteps\<close> of them.
\<close>

theorem plan_and_execute_is_plan_then_loop:
  assumes "executePlanAndExecute d options w = (res, w')"
  shows "\<exists>req outcome rest.
     req = \<lparr>modelAlias = o_modelAlias options,
            systemPrompt = Some (o_systemPrompt options @ [CHR 0x0A, CHR 0x0A] @
              ''Create a step-by-step plan to accomplish the user'' @ [CHR 0x27] @
              ''s request. List the steps clearly.''),
            messages = o_messages options, tools = None, toolChoice = None\<rparr> \<and>
     llm_calls w' = llm_calls w @ (req, outcome) # rest \<and>
     outcome = generate d w req \<and>
     (case outcome of
        Inl e \<Rightarrow> res = Inl e \<and> rest = []
      | Inr planResponse \<Rightarrow>
          (\<exists>planMessage.
             planMessage =
               \<lparr>role = Assistant,
                msg_content = Some (''Plan:'' @ [CHR 0x0A] @ content planResponse @
                                    [CHR 0x0A, CHR 0x0A] @ ''Now executing this plan...''),
                tool_calls = None, tool_call_id = None\<rparr> \<and>
             executeLoop d (options\<lparr>o_messages := o_messages options @ [planMessage]\<rparr>)
               (logged w req (Inr planResponse)) = (res, w') \<and>
             int (length rest) \<le> max 0 (o_maxSteps options) \<and>
             list_all (\<lambda>x. loop_call_ok options (o_messages options @ [planMessage]) (fst x))
               rest))"
  using assms
proof (cases rule: executePlanAndExecute_cases)
  case (plan_fail e)
  then show ?thesis by (simp add: planning_request_def plan_instruction_def nl_def)
next
  case (planned planResponse)
  let ?options = "options\<lparr>o_messages := o_messages options @ [plan_message planResponse]\<rparr>"
  let ?w1 = "logged w (planning_request options) (Inr planResponse)"
  note log = executeLoop_log[OF planned(2)]
  have "llm_calls w' = llm_calls w @
          (planning_request options, Inr planResponse) # new_calls ?w1 w'"
    using log(1) by simp
  moreover have "int (length (new_calls ?w1 w')) \<le> max 0 (o_maxSteps options)"
    using log(3) by simp
  moreover have "list_all (\<lambda>x. loop_call_ok options
      (o_messages options @ [plan_message planResponse]) (fst x)) (new_calls ?w1 w')"
    using log(4) by (simp add: loop_call_ok_def)
  ultimately show ?thesis
    using planned by (simp add: planning_request_def plan_message_def plan_instruction_def nl_def)
qed

theorem plan_and_execute_is_plan_then_loop_witness:
  "\<exists>res w'. executePlanAndExecute (example_deps example_plan_script) example_loop_options
               empty_world = (res, w') \<and>
            tools (fst (hd (llm_calls w'))) = None \<and>
            systemPrompt (fst (hd (llm_calls w'))) =
              Some (''You triage alerts.'' @ [CHR 0x0A, CHR 0x0A] @
                ''Create a step-by-step plan to accomplish the user'' @ [CHR 0x27] @
                ''s request. List the steps clearly.'') \<and>
            int (length (tl (llm_calls w'))) \<le> 2"
proof -
  let ?d = "example_deps example_plan_script"
  obtain res w' where run: "executePlanAndExecute ?d example_loop_options empty_world = (res, w')"
    by (cases "executePlanAndExecute ?d example_loop_options empty_world") blast
  from plan_and_execute_is_plan_then_loop[OF run] obtain req outcome rest where
    req: "req = \<lparr>modelAlias = o_modelAlias example_loop_options,
            systemPrompt = Some (o_systemPrompt example_loop_options @ [CHR 0x0A, CHR 0x0A] @
              ''Create a step-by-step plan to accomplish the user'' @ [CHR 0x27] @
              ''s request. List the steps clearly.''),
            messages = o_messages example_loop_options, tools = None, toolChoice = None\<rparr>"
    and log: "llm_calls w' = llm_calls empty_world @ (req, outcome) # rest"
    and rest: "case outcome of
        Inl e \<Rightarrow> res = Inl e \<and> rest = []
      | Inr planResponse \<Rightarrow>
          (\<exists>planMessage.
             planMessage =
               \<lparr>role = Assistant,
                msg_content = Some (''Plan:'' @ [CHR 0x0A] @ content planResponse @
                                    [CHR 0x0A, CHR 0x0A] @ ''Now executing this plan...''),
                tool_calls = None, tool_call_id = None\<rparr> \<and>
             executeLoop ?d
               (example_loop_options\<lparr>o_messages :=
                  o_messages example_loop_options @ [planMessage]\<rparr>)
               (logged empty_world req (Inr planResponse)) = (res, w') \<and>
             int (length rest) \<le> max 0 (o_maxSteps example_loop_options) \<and>
             list_all (\<lambda>x. loop_call_ok example_loop_options
                             (o_messages example_loop_options @ [planMessage]) (fst x))
               rest)"
    by blast
  from rest have "int (length rest) \<le> 2"
    by (cases outcome) (auto simp: example_loop_options_def)
  with log req
  have "tools (fst (hd (llm_calls w'))) = None \<and>
        systemPrompt (fst (hd (llm_calls w'))) =
          Some (''You triage alerts.'' @ [CHR 0x0A, CHR 0x0A] @
            ''Create a step-by-step plan to accomplish the user'' @ [CHR 0x27] @
            ''s request. List the steps clearly.'') \<and>
        int (length (tl (llm_calls w'))) \<le> 2"
    by (simp add: empty_world_def example_loop_options_def)
  with run show ?thesis by blast
qed

text \<open>
  Claim C9. When a plan_and_execute run returns, its result is the result of the loop that
  follows the planning call: the trace has no planning-phase record, and it has one
  llm_call record less than the run made model calls.
\<close>

theorem planning_call_not_in_trace:
  assumes "executePlanAndExecute d options w = (Inr r, w')"
  shows "\<exists>planResponse.
     generate d w (planning_request options) = Inr planResponse \<and>
     executeLoop d (options\<lparr>o_messages := o_messages options @ [plan_message planResponse]\<rparr>)
       (logged w (planning_request options) (Inr planResponse)) = (Inr r, w') \<and>
     \<not> list_ex is_planning_step (steps r) \<and>
     length (llm_call_steps (steps r)) + 1 = length (new_calls w w')"
  using assms
proof (cases rule: executePlanAndExecute_cases)
  case (planned planResponse)
  let ?options = "options\<lparr>o_messages := o_messages options @ [plan_message planResponse]\<rparr>"
  let ?w1 = "logged w (planning_request options) (Inr planResponse)"
  from planned(2) obtain v where
    run: "executeLoop_while d ?options (loop_init ?options) ?w1 = (Inr v, w')"
    and r: "r = loop_result v"
    by (cases rule: executeLoop_cases) auto
  from loop_steps[OF run] obtain ss where
    ss: "lv_steps v = lv_steps (loop_init ?options) @ ss" "\<not> list_ex is_planning_step ss"
      "length (llm_call_steps ss) = length (new_calls ?w1 w')"
    by blast
  have steps: "steps r = ss"
    using ss(1) r by (simp add: loop_result_def loop_init_def)
  have "llm_calls w' = llm_calls w @ (planning_request options, Inr planResponse) # new_calls ?w1 w'"
    using executeLoop_while_new_calls[OF run] by simp
  then have "new_calls w w' = (planning_request options, Inr planResponse) # new_calls ?w1 w'"
    by (rule new_calls_eq)
  with planned ss(2,3) steps show ?thesis by simp
qed simp

theorem planning_call_not_in_trace_witness:
  "\<exists>r w'. executePlanAndExecute (example_deps example_plan_script) example_loop_options
             empty_world = (Inr r, w') \<and>
          \<not> list_ex is_planning_step (steps r) \<and>
          length (llm_call_steps (steps r)) + 1 = length (llm_calls w') \<and>
          r_output r = ''done''"
proof -
  let ?d = "example_deps example_plan_script"
  obtain res w' where run: "executePlanAndExecute ?d example_loop_options empty_world = (res, w')"
    by (cases "executePlanAndExecute ?d example_loop_options empty_world") blast
  have "\<exists>r. fst (executePlanAndExecute ?d example_loop_options empty_world) = Inr r \<and>
             r_output r = ''done''"
    by (simp add: code_simps example_simps)
  with run obtain r where r: "res = Inr r" "r_output r = ''done''"
    by auto
  from planning_call_not_in_trace[OF run[unfolded r(1)]]
  have "\<not> list_ex is_planning_step (steps r) \<and>
        length (llm_call_steps (steps r)) + 1 = length (llm_calls w')"
    by (auto simp: new_calls_def empty_world_def)
  with run r show ?thesis by blast
qed

subsection \<open>Context assembly\<close>

lemma push_documents_eq:
  "push_documents docs contexts =
     contexts @ map (\<lambda>doc. ''[Document: '' @ doc_title doc @ '']'' @ [CHR 0x0A] @
                           take 1000 (the (doc_content doc)))
                  (filter (\<lambda>doc. truthy (doc_content doc)) docs)"
  by (induction docs arbitrary: contexts)
     (simp_all add: document_snippet_def substring0_def nl_def)

lemma push_memories_eq:
  "push_memories memories contexts =
     contexts @ map (\<lambda>m. ''[Memory: '' @ mem_key m @ '']'' @ [CHR 0x0A] @ mem_value m) memories"
  by (induction memories arbitrary: contexts) (simp_all add: memory_snippet_def nl_def)

lemma retrieveContext_eq:
  "retrieveContext d aid oid query =
     (case contextDocument_findMany d aid oid of
        Inl e \<Rightarrow> Inl e
      | Inr docs \<Rightarrow>
          (case agentMemory_findMany d aid of
             Inl e \<Rightarrow> Inl e
           | Inr memories \<Rightarrow> Inr (context_snippets docs memories)))"
  by (simp add: retrieveContext_def context_snippets_def push_documents_eq push_memories_eq
        split: sum.splits)

lemma context_assembly:
  "buildEnhancedSystemPrompt basePrompt (context_snippets docs memories) =
     (if context_snippets docs memories = [] then basePrompt
      else basePrompt @ [CHR 0x0A, CHR 0x0A] @ ''## Relevant Context'' @ [CHR 0x0A, CHR 0x0A] @
           ''The following context documents and memories may be helpful:'' @
           [CHR 0x0A, CHR 0x0A] @
           join ([CHR 0x0A, CHR 0x0A] @ ''---'' @ [CHR 0x0A, CHR 0x0A])
             (context_snippets docs memories) @
           [CHR 0x0A, CHR 0x0A] @ ''---'' @ [CHR 0x0A, CHR 0x0A] @
           ''Use the above context when relevant to answer the user'' @ [CHR 0x27] @
           ''s query.'')"
  by (simp add: buildEnhancedSystemPrompt_def context_header_def context_footer_def
        context_separator_def nl_def Let_def)

text \<open>
  Claim C4 at a failing input. The agent has one document and one memory, each with a text
  of 1001 characters (and a second document whose content is empty, which is skipped). The
  "Relevant Context" section is appended and both snippets are labelled, but only the
  document's content is cut to its first 1000 characters: the memory's value is in the
  prompt whole. The document loop applies \<^verbatim>\<open>substring(0, 1000)\<close>, the memory loop next
  to it does not.
\<close>

theorem memory_snippet_not_truncated:
  "length long_value = 1001 \<and> length (take 1000 long_value) = 1000 \<and>
   retrieveContext memory_deps ''single'' ''org'' ''q'' =
     Inr [''[Document: Runbook]'' @ [CHR 0x0A] @ take 1000 long_value,
          ''[Memory: note]'' @ [CHR 0x0A] @ long_value] \<and>
   buildEnhancedSystemPrompt ''You triage alerts.''
       [''[Document: Runbook]'' @ [CHR 0x0A] @ take 1000 long_value,
        ''[Memory: note]'' @ [CHR 0x0A] @ long_value] =
     ''You triage alerts.'' @ [CHR 0x0A, CHR 0x0A] @ ''## Relevant Context'' @
     [CHR 0x0A, CHR 0x0A] @
     ''The following context documents and memories may be helpful:'' @ [CHR 0x0A, CHR 0x0A] @
     ''[Document: Runbook]'' @ [CHR 0x0A] @ take 1000 long_value @
     [CHR 0x0A, CHR 0x0A] @ ''---'' @ [CHR 0x0A, CHR 0x0A] @
     ''[Memory: note]'' @ [CHR 0x0A] @ long_value @
     [CHR 0x0A, CHR 0x0A] @ ''---'' @ [CHR 0x0A, CHR 0x0A] @
     ''Use the above context when relevant to answer the user'' @ [CHR 0x27] @ ''s query.''"
proof -
  have "length long_value = 1001" "length (take 1000 long_value) = 1000"
    by (simp_all add: long_value_def)
  moreover have "long_value \<noteq> []"
    by (simp add: long_value_def)
  then have "retrieveContext memory_deps ''single'' ''org'' ''q'' =
     Inr [''[Document: Runbook]'' @ [CHR 0x0A] @ take 1000 long_value,
          ''[Memory: note]'' @ [CHR 0x0A] @ long_value]"
    by (simp add: code_simps example_simps nl_def)
  moreover have "buildEnhancedSystemPrompt ''You triage alerts.''
       [''[Document: Runbook]'' @ [CHR 0x0A] @ take 1000 long_value,
        ''[Memory: note]'' @ [CHR 0x0A] @ long_value] =
     ''You triage alerts.'' @ [CHR 0x0A, CHR 0x0A] @ ''## Relevant Context'' @
     [CHR 0x0A, CHR 0x0A] @
     ''The following context documents and memories may be helpful:'' @ [CHR 0x0A, CHR 0x0A] @
     ''[Document: Runbook]'' @ [CHR 0x0A] @ take 1000 long_value @
     [CHR 0x0A, CHR 0x0A] @ ''---'' @ [CHR 0x0A, CHR 0x0A] @
     ''[Memory: note]'' @ [CHR 0x0A] @ long_value @
     [CHR 0x0A, CHR 0x0A] @ ''---'' @ [CHR 0x0A, CHR 0x0A] @
     ''Use the above context when relevant to answer the user'' @ [CHR 0x27] @ ''s query.''"
    by (simp add: buildEnhancedSystemPrompt_def context_header_def context_footer_def
          context_separator_def nl_def Let_def)
  ultimately show ?thesis by blast
qed

subsection \<open>execute\<close>

lemma loop_call_ok_call_ok:
  "loop_call_ok options ms req \<Longrightarrow> call_ok (o_modelAlias options) (o_systemPrompt options) ms req"
  by (simp add: loop_call_ok_def call_ok_def)

lemma executeLoop_run_ok:
  "run_ok (o_modelAlias options) (o_systemPrompt options) (o_messages options) w
     (executeLoop d options w)"
proof -
  obtain res w' where run: "executeLoop d options w = (res, w')"
    by (cases "executeLoop d options w") blast
  note log = executeLoop_log[OF run]
  have "list_all (\<lambda>x. call_ok (o_modelAlias options) (o_systemPrompt options)
          (o_messages options) (fst x)) (new_calls w w')"
    using log(4) by (auto simp: list_all_iff intro: loop_call_ok_call_ok)
  moreover have "case res of Inl e \<Rightarrow> new_calls w w' \<noteq> [] | Inr r \<Rightarrow> True"
    using run
  proof (cases rule: executeLoop_cases)
    case (fail e)
    with loop_failure_after_call[OF fail(1)] show ?thesis by simp
  next
    case (return v)
    then show ?thesis by simp
  qed
  ultimately show ?thesis
    using log(1,2) run by (cases res) (simp_all add: run_ok_def)
qed

lemma executeSingleStep_run_ok:
  "run_ok (o_modelAlias options) (o_systemPrompt options) (o_messages options) w
     (executeSingleStep d options w)"
proof -
  obtain res w' where run: "executeSingleStep d options w = (res, w')"
    by (cases "executeSingleStep d options w") blast
  have first: "call_ok (o_modelAlias options) (o_systemPrompt options) (o_messages options)
      (first_request options)"
    by (simp add: call_ok_def first_request_def)
  have second: "\<And>response toolMessages.
      call_ok (o_modelAlias options) (o_systemPrompt options) (o_messages options)
        (second_request options response toolMessages)"
    by (simp add: call_ok_def second_request_def)
  from run have "llm_calls w' = llm_calls w @ new_calls w w' \<and> arrays w' = arrays w \<and>
      list_all (\<lambda>x. call_ok (o_modelAlias options) (o_systemPrompt options)
                  (o_messages options) (fst x)) (new_calls w w') \<and>
      (case res of Inl e \<Rightarrow> new_calls w w' \<noteq> [] | Inr r \<Rightarrow> True)"
  proof (cases rule: executeSingleStep_cases)
    case (llm_fail e)
    with first show ?thesis by simp
  next
    case (plain response)
    with first show ?thesis by simp
  next
    case (tool_fail response e)
    from tool_round_frame[OF tool_fail(3)]
    have "llm_calls w' = llm_calls w @ [(first_request options, Inr response)]"
      "arrays w' = arrays w"
      by simp_all
    with first tool_fail(4) new_calls_eq[OF this(1)] show ?thesis by simp
  next
    case (final_fail response toolResults toolMessages w2 e)
    from tool_round_frame[OF final_fail(3)] final_fail(6)
    have "llm_calls w' = llm_calls w @ [(first_request options, Inr response),
        (second_request options response toolMessages, Inl e)]"
      "arrays w' = arrays w"
      by simp_all
    with first second final_fail(5) new_calls_eq[OF this(1)] show ?thesis by simp
  next
    case (final response toolResults toolMessages w2 finalResponse)
    from tool_round_frame[OF final(3)] final(6)
    have "llm_calls w' = llm_calls w @ [(first_request options, Inr response),
        (second_request options response toolMessages, Inr finalResponse)]"
      "arrays w' = arrays w"
      by simp_all
    with first second final(5) new_calls_eq[OF this(1)] show ?thesis by simp
  qed
  with run show ?thesis by (cases res) (simp_all add: run_ok_def)
qed

lemma executePlanAndExecute_run_ok:
  "run_ok (o_modelAlias options) (o_systemPrompt options) (o_messages options) w
     (executePlanAndExecute d options w)"
proof -
  obtain res w' where run: "executePlanAndExecute d options w = (res, w')"
    by (cases "executePlanAndExecute d options w") blast
  have plan: "call_ok (o_modelAlias options) (o_systemPrompt options) (o_messages options)
      (planning_request options)"
    by (simp add: call_ok_def planning_request_def)
  from run have "llm_calls w' = llm_calls w @ new_calls w w' \<and> arrays w' = arrays w \<and>
      list_all (\<lambda>x. call_ok (o_modelAlias options) (o_systemPrompt options)
                  (o_messages options) (fst x)) (new_calls w w') \<and>
      (case res of Inl e \<Rightarrow> new_calls w w' \<noteq> [] | Inr r \<Rightarrow> True)"
  proof (cases rule: executePlanAndExecute_cases)
    case (plan_fail e)
    with plan show ?thesis by simp
  next
    case (planned planResponse)
    let ?options = "options\<lparr>o_messages := o_messages options @ [plan_message planResponse]\<rparr>"
    let ?w1 = "logged w (planning_request options) (Inr planResponse)"
    from executeLoop_run_ok[of ?options ?w1 d] planned(2)
    have ok: "llm_calls w' = llm_calls ?w1 @ new_calls ?w1 w'" "arrays w' = arrays w"
      "list_all (\<lambda>x. call_ok (o_modelAlias options) (o_systemPrompt options)
         (o_messages options @ [plan_message planResponse]) (fst x)) (new_calls ?w1 w')"
      by (simp_all add: run_ok_def)
    have eq: "llm_calls w' = llm_calls w @
        (planning_request options, Inr planResponse) # new_calls ?w1 w'"
      using ok(1) by simp
    have "list_all (\<lambda>x. call_ok (o_modelAlias options) (o_systemPrompt options)
         (o_messages options) (fst x)) (new_calls ?w1 w')"
      using ok(3) by (auto simp: list_all_iff call_ok_def dest: append_prefixD)
    with plan ok(2) eq new_calls_eq[OF eq] show ?thesis
      by (cases res) simp_all
  qed
  with run show ?thesis by (cases res) (simp_all add: run_ok_def)
qed

lemma prefix_enhanced: "prefix basePrompt (buildEnhancedSystemPrompt basePrompt contexts)"
  by (simp add: buildEnhancedSystemPrompt_def Let_def)

lemma run_ok_weaken:
  assumes "run_ok alias prompt' ms w run" and "prefix prompt prompt'"
  shows "run_ok alias prompt ms w run"
proof -
  have "call_ok alias prompt ms req" if "call_ok alias prompt' ms req" for req :: "'a GenerateOptions"
    using that assms(2) by (auto simp: call_ok_def split: option.splits)
  with assms(1) show ?thesis
    by (auto simp: run_ok_def list_all_iff)
qed

lemma run_ok_rewrap:
  assumes "run_ok alias prompt ms w run"
  shows "run_ok alias prompt ms w
           (case run of (Inl e, w') \<Rightarrow> (Inl e, w') | (Inr r, w') \<Rightarrow> (Inr (f r), w'))"
proof -
  obtain res w' where "run = (res, w')" by (cases run) blast
  with assms show ?thesis by (cases res) (simp_all add: run_ok_def)
qed

lemma push_user_message_eq:
  "push_user_message (opt_previousMessages options) (user_message (opt_input options)) w =
     (conversation options w, after_push options w)"
  by (simp add: push_user_message_def conversation_def after_push_def split: option.splits)

lemma execute_run_ok:
  assumes "agent_findUnique d (opt_agentId options) = Inr (Some agent)"
    and "retrieveContext d (opt_agentId options) (opt_organizationId options)
           (opt_input options) = Inr contexts"
  shows "run_ok (resolved_alias agent) (resolved_prompt agent) (conversation options w)
           (after_push options w) (execute d options w)"
proof -
  let ?prompt = "buildEnhancedSystemPrompt (resolved_prompt agent) contexts"
  let ?w0 = "after_push options w"
  let ?executors = "case opt_toolExecutors options of None \<Rightarrow> [] | Some es \<Rightarrow> es"
  let ?ctx = "\<lparr>organizationId = opt_organizationId options, agentId = opt_agentId options,
               userId = opt_userId options\<rparr>"
  let ?maxSteps = "case agent_maxSteps agent of None \<Rightarrow> 10 | Some n \<Rightarrow> if n = 0 then 10 else n"
  let ?so = "\<lparr>o_systemPrompt = ?prompt, o_modelAlias = resolved_alias agent,
      o_messages = conversation options w,
      o_toolDefinitions = buildToolDefinitions (agent_tools agent),
      o_toolExecutors = ?executors, o_context = ?ctx\<rparr>"
  let ?lo = "\<lparr>o_systemPrompt = ?prompt, o_modelAlias = resolved_alias agent,
      o_messages = conversation options w,
      o_toolDefinitions = buildToolDefinitions (agent_tools agent),
      o_toolExecutors = ?executors, o_context = ?ctx, o_maxSteps = ?maxSteps\<rparr>"
  have pre: "prefix (resolved_prompt agent) ?prompt"
    by (rule prefix_enhanced)
  consider (single) "planningMode agent = ''single_step''"
    | (loop) "planningMode agent \<noteq> ''single_step''" "planningMode agent = ''loop_with_limits''"
    | (plan) "planningMode agent \<noteq> ''single_step''" "planningMode agent \<noteq> ''loop_with_limits''"
    by blast
  then show ?thesis
  proof cases
    case single
    have "execute d options w =
        (case executeSingleStep d ?so ?w0 of
           (Inl e, w') \<Rightarrow> (Inl e, w')
         | (Inr result, w') \<Rightarrow>
             (Inr \<lparr>r_output = r_output result,
                   toolCallsExecuted = 0 + toolCallsExecuted result,
                   steps = [] @ steps result,
                   res_usage =
                     \<lparr>inputTokens = 0 + inputTokens (res_usage result),
                      outputTokens = 0 + outputTokens (res_usage result),
                      totalTokens = (0 + inputTokens (res_usage result)) +
                                    (0 + outputTokens (res_usage result))\<rparr>\<rparr>, w'))"
      using assms single
      by (simp add: execute_def Let_def push_user_message_eq resolved_alias_def
            resolved_prompt_def)
    moreover have "run_ok (resolved_alias agent) (resolved_prompt agent) (conversation options w)
        ?w0 (executeSingleStep d ?so ?w0)"
      using executeSingleStep_run_ok[of ?so ?w0 d] pre by (auto intro: run_ok_weaken)
    ultimately show ?thesis
      using run_ok_rewrap by fastforce
  next
    case loop
    have "execute d options w = executeLoop d ?lo ?w0"
      using assms loop
      by (simp add: execute_def Let_def push_user_message_eq resolved_alias_def
            resolved_prompt_def)
    moreover have "run_ok (resolved_alias agent) (resolved_prompt agent) (conversation options w)
        ?w0 (executeLoop d ?lo ?w0)"
      using executeLoop_run_ok[of ?lo ?w0 d] pre by (auto intro: run_ok_weaken)
    ultimately show ?thesis by simp
  next
    case plan
    have "execute d options w = executePlanAndExecute d ?lo ?w0"
      using assms plan
      by (simp add: execute_def Let_def push_user_message_eq resolved_alias_def
            resolved_prompt_def)
    moreover have "run_ok (resolved_alias agent) (resolved_prompt agent) (conversation options w)
        ?w0 (executePlanAndExecute d ?lo ?w0)"
      using executePlanAndExecute_run_ok[of ?lo ?w0 d] pre by (auto intro: run_ok_weaken)
    ultimately show ?thesis by simp
  qed
qed

lemma execute_loop_mode:
  assumes "agent_findUnique d (opt_agentId options) = Inr (Some agent)"
    and "retrieveContext d (opt_agentId options) (opt_organizationId options)
           (opt_input options) = Inr contexts"
    and "planningMode agent = ''loop_with_limits''"
  shows "execute d options w =
     executeLoop d
       \<lparr>o_systemPrompt = buildEnhancedSystemPrompt (resolved_prompt agent) contexts,
        o_modelAlias = resolved_alias agent, o_messages = conversation options w,
        o_toolDefinitions = buildToolDefinitions (agent_tools agent),
        o_toolExecutors = (case opt_toolExecutors options of None \<Rightarrow> [] | Some es \<Rightarrow> es),
        o_context = \<lparr>organizationId = opt_organizationId options,
                      agentId = opt_agentId options, userId = opt_userId options\<rparr>,
        o_maxSteps = (case agent_maxSteps agent of
                        None \<Rightarrow> 10
                      | Some n \<Rightarrow> if n = 0 then 10 else n)\<rparr>
       (after_push options w)"
  using assms
  by (simp add: execute_def Let_def push_user_message_eq resolved_alias_def resolved_prompt_def)

lemma new_calls_after_push [simp]: "new_calls (after_push options w) w' = new_calls w w'"
  by (simp add: new_calls_def after_push_def split: option.splits)

lemma execute_loop_step_limit:
  assumes "agent_findUnique d (opt_agentId options) = Inr (Some agent)"
    and "retrieveContext d (opt_agentId options) (opt_organizationId options)
           (opt_input options) = Inr contexts"
    and "planningMode agent = ''loop_with_limits''"
    and "agent_maxSteps agent = Some k" and "1 \<le> k"
    and "execute d options w = (res, w')"
  shows "int (length (new_calls w w')) \<le> k"
proof -
  from execute_loop_mode[OF assms(1,2,3), of w] assms(6) obtain lo where
    run: "executeLoop d lo (after_push options w) = (res, w')"
    and lo: "o_maxSteps lo =
        (case agent_maxSteps agent of None \<Rightarrow> 10 | Some n \<Rightarrow> if n = 0 then 10 else n)"
    by simp
  from executeLoop_log(3)[OF run] lo
  have "int (length (new_calls (after_push options w) w')) \<le>
        max 0 (case agent_maxSteps agent of None \<Rightarrow> 10 | Some n \<Rightarrow> if n = 0 then 10 else n)"
    by simp
  with assms(4,5) show ?thesis by simp
qed

lemma execute_not_found:
  "agent_findUnique d (opt_agentId options) = Inr None \<Longrightarrow>
     execute d options w = (Inl (Error ''Agent not found''), w)"
  by (simp add: execute_def)

lemma execute_agent_query_rejects:
  "agent_findUnique d (opt_agentId options) = Inl e \<Longrightarrow> execute d options w = (Inl e, w)"
  by (simp add: execute_def)

lemma execute_context_query_rejects:
  "agent_findUnique d (opt_agentId options) = Inr (Some agent) \<Longrightarrow>
   retrieveContext d (opt_agentId options) (opt_organizationId options) (opt_input options) =
     Inl e \<Longrightarrow>
   execute d options w = (Inl e, w)"
  by (simp add: execute_def Let_def)

text \<open>
  Claim C3, as the code has it. The agent is looked up first: when that query rejects,
  execute rejects with the same error; when no agent has the id, execute fails with the error
  "Agent not found". In both cases the world is unchanged: no model-generation call was made.
  When the agent is found, a missing active system prompt or model alias is no error: a
  missing alias resolves to "claude-3-5-sonnet" and a missing active prompt to
  "You are a helpful AI assistant for SecOps.", and every model call of the run uses the
  resolved alias and a system prompt that starts with the resolved prompt. With the agent
  found, execute can fail before any model call in one way only: a query of the context
  retrieval rejects, and execute rejects with that error.
\<close>

theorem execute_configuration:
  assumes "execute d options w = (res, w')"
  shows "case agent_findUnique d (opt_agentId options) of
           Inl e \<Rightarrow> res = Inl e \<and> w' = w
         | Inr None \<Rightarrow> res = Inl (Error ''Agent not found'') \<and> w' = w
         | Inr (Some agent) \<Rightarrow>
             (case res of
                Inl e \<Rightarrow>
                  new_calls w w' \<noteq> [] \<or>
                  retrieveContext d (opt_agentId options) (opt_organizationId options)
                    (opt_input options) = Inl e \<and> w' = w
              | Inr r \<Rightarrow> True) \<and>
             list_all (\<lambda>x. modelAlias (fst x) = resolved_alias agent \<and>
                            (case systemPrompt (fst x) of
                               None \<Rightarrow> False
                             | Some p \<Rightarrow> prefix (resolved_prompt agent) p))
               (new_calls w w') \<and>
             (defaultModelAlias agent = None \<longrightarrow>
                resolved_alias agent = ''claude-3-5-sonnet'') \<and>
             (systemPrompts agent = [] \<longrightarrow>
                resolved_prompt agent = ''You are a helpful AI assistant for SecOps.'')"
proof (cases "agent_findUnique d (opt_agentId options)")
  case (Inl e)
  with assms execute_agent_query_rejects[OF Inl, of w] show ?thesis by simp
next
  case (Inr found)
  show ?thesis
  proof (cases found)
    case None
    with Inr have nf: "agent_findUnique d (opt_agentId options) = Inr None" by simp
    with assms execute_not_found[OF nf, of w] show ?thesis by simp
  next
    case (Some agent)
    with Inr have found: "agent_findUnique d (opt_agentId options) = Inr (Some agent)" by simp
    have ra: "defaultModelAlias agent = None \<longrightarrow> resolved_alias agent = ''claude-3-5-sonnet''"
      by (simp add: resolved_alias_def or_default_def default_modelAlias_def)
    have rp: "systemPrompts agent = [] \<longrightarrow>
        resolved_prompt agent = ''You are a helpful AI assistant for SecOps.''"
      by (simp add: resolved_prompt_def or_default_def default_systemPrompt_def)
    show ?thesis
    proof (cases "retrieveContext d (opt_agentId options) (opt_organizationId options)
                    (opt_input options)")
      case (Inl e)
      from execute_context_query_rejects[OF found Inl, of w] assms
      have "res = Inl e" "w' = w" by simp_all
      with found Inl ra rp show ?thesis by (simp add: new_calls_def)
    next
      case (Inr contexts)
      from execute_run_ok[OF found Inr, of w] assms
      have "case res of Inl e \<Rightarrow> new_calls w w' \<noteq> [] | Inr r \<Rightarrow> True"
        and "list_all (\<lambda>x. call_ok (resolved_alias agent) (resolved_prompt agent)
                             (conversation options w) (fst x)) (new_calls w w')"
        by (simp_all add: run_ok_def cong: sum.case_cong)
      with found ra rp show ?thesis
        by (cases res) (simp_all add: list_all_iff call_ok_def)
    qed
  qed
qed

theorem execute_configuration_witness:
  "(\<exists>res w'. execute (example_deps []) (example_options ''nobody'') empty_world = (res, w') \<and>
             res = Inl (Error ''Agent not found'') \<and> llm_calls w' = []) \<and>
   (\<exists>res w'. execute (example_deps [Inr (plain_response ''pong'')]) (example_options ''bare'')
                empty_world = (res, w') \<and>
             list_all (\<lambda>x. modelAlias (fst x) = ''claude-3-5-sonnet'' \<and>
                            (case systemPrompt (fst x) of
                               None \<Rightarrow> False
                             | Some p \<Rightarrow> prefix ''You are a helpful AI assistant for SecOps.'' p))
               (llm_calls w')) \<and>
   (\<exists>res w'. execute (failing_store []) (example_options ''bare'') empty_world = (res, w') \<and>
             res = Inl (Error ''connection lost'') \<and> llm_calls w' = [])"
proof -
  obtain res w' where
    run: "execute (example_deps []) (example_options ''nobody'') empty_world = (res, w')"
    by (cases "execute (example_deps []) (example_options ''nobody'') empty_world") blast
  have "agent_findUnique (example_deps []) (opt_agentId (example_options ''nobody'')) = Inr None"
    by (simp add: agent_findUnique_def example_deps_def example_options_def example_agent_def
          bare_agent_def)
  with execute_configuration[OF run] have "res = Inl (Error ''Agent not found'') \<and> w' = empty_world"
    by simp
  with run have missing: "\<exists>res w'.
      execute (example_deps []) (example_options ''nobody'') empty_world = (res, w') \<and>
      res = Inl (Error ''Agent not found'') \<and> llm_calls w' = []"
    by (simp add: empty_world_def)
  let ?d = "example_deps [Inr (plain_response ''pong'')]"
  let ?agent = "bare_agent\<lparr>systemPrompts := []\<rparr>"
  obtain res2 w2 where run2: "execute ?d (example_options ''bare'') empty_world = (res2, w2)"
    by (cases "execute ?d (example_options ''bare'') empty_world") blast
  have found: "agent_findUnique ?d (opt_agentId (example_options ''bare'')) = Inr (Some ?agent)"
    by (simp add: agent_findUnique_def example_deps_def example_options_def example_agent_def
          bare_agent_def)
  have bare: "defaultModelAlias ?agent = None" "systemPrompts ?agent = []"
    by (simp_all add: bare_agent_def)
  note conf = execute_configuration[OF run2, unfolded found sum.case option.case]
  from conf
  have calls: "list_all (\<lambda>x. modelAlias (fst x) = resolved_alias ?agent \<and>
                       (case systemPrompt (fst x) of
                          None \<Rightarrow> False
                        | Some p \<Rightarrow> prefix (resolved_prompt ?agent) p))
          (new_calls empty_world w2)"
    by blast
  from conf bare(1) have ra: "resolved_alias ?agent = ''claude-3-5-sonnet''"
    by blast
  from conf bare(2) have rp: "resolved_prompt ?agent = ''You are a helpful AI assistant for SecOps.''"
    by blast
  have "new_calls empty_world w2 = llm_calls w2"
    by (simp add: new_calls_def empty_world_def)
  with calls
  have "list_all (\<lambda>x. modelAlias (fst x) = ''claude-3-5-sonnet'' \<and>
                       (case systemPrompt (fst x) of
                          None \<Rightarrow> False
                        | Some p \<Rightarrow> prefix ''You are a helpful AI assistant for SecOps.'' p))
          (llm_calls w2)"
    unfolding ra rp by simp
  with run2 have defaults: "\<exists>res w'. execute ?d (example_options ''bare'') empty_world = (res, w') \<and>
      list_all (\<lambda>x. modelAlias (fst x) = ''claude-3-5-sonnet'' \<and>
                     (case systemPrompt (fst x) of
                        None \<Rightarrow> False
                      | Some p \<Rightarrow> prefix ''You are a helpful AI assistant for SecOps.'' p))
        (llm_calls w')"
    by blast
  obtain res3 w3 where
    run3: "execute (failing_store []) (example_options ''bare'') empty_world = (res3, w3)"
    by (cases "execute (failing_store []) (example_options ''bare'') empty_world") blast
  have found3: "agent_findUnique (failing_store []) (opt_agentId (example_options ''bare'')) =
      Inr (Some ?agent)"
    by (simp add: agent_findUnique_def failing_store_def example_deps_def example_options_def
          example_agent_def bare_agent_def)
  have "res3 = Inl (Error ''connection lost'') \<and> w3 = empty_world"
    using run3
    by (simp add: code_simps example_simps)
  moreover note execute_configuration[OF run3, unfolded found3 sum.case option.case]
  ultimately have "res3 = Inl (Error ''connection lost'') \<and> llm_calls w3 = []"
    by (simp add: empty_world_def)
  with run3 have "\<exists>res w'. execute (failing_store []) (example_options ''bare'') empty_world =
      (res, w') \<and> res = Inl (Error ''connection lost'') \<and> llm_calls w' = []"
    by blast
  with missing defaults show ?thesis by blast
qed

theorem missing_prompt_and_alias_do_not_fail:
  "agent_findUnique (example_deps [Inr (plain_response ''pong'')]) ''bare'' =
     Inr (Some bare_agent) \<and>
   systemPrompts bare_agent = [] \<and> defaultModelAlias bare_agent = None \<and>
   map_sum id r_output (fst bare_run) = Inr ''pong'' \<and>
   length (llm_calls (snd bare_run)) = 1 \<and>
   modelAlias (fst (hd (llm_calls (snd bare_run)))) = ''claude-3-5-sonnet'' \<and>
   systemPrompt (fst (hd (llm_calls (snd bare_run)))) =
     Some ''You are a helpful AI assistant for SecOps.''"
  by (simp add: bare_run_def code_simps example_simps)

text \<open>
  Claim C10, as the code has it. The caller passed an array as previousMessages. The push of
  the user message comes after the lookup of the agent and after the context retrieval, so
  there are four cases. When the agent is found and the context queries succeed, the user
  message is pushed onto that very array: after the call, whether it returned or threw, the
  caller's array is the old one followed by the user message, no other array has changed,
  and every model call of the run was made on a conversation that starts with the extended
  array. When the agent query rejects, when the agent is not found, and when a context query
  rejects, execute throws before the push: the world, and with it the caller's array, is
  unchanged.
\<close>

theorem previousMessages_pushed_in_place:
  assumes "opt_previousMessages options = Some a"
    and "execute d options w = (res, w')"
  shows "case agent_findUnique d (opt_agentId options) of
           Inl e \<Rightarrow> res = Inl e \<and> w' = w
         | Inr None \<Rightarrow> res = Inl (Error ''Agent not found'') \<and> w' = w
         | Inr (Some agent) \<Rightarrow>
             (case retrieveContext d (opt_agentId options) (opt_organizationId options)
                     (opt_input options) of
                Inl e \<Rightarrow> res = Inl e \<and> w' = w
              | Inr contexts \<Rightarrow>
                  arrays w' = (arrays w)(a := arrays w a @
                                 [\<lparr>role = User, msg_content = Some (opt_input options),
                                   tool_calls = None, tool_call_id = None\<rparr>]) \<and>
                  list_all (\<lambda>x. prefix (arrays w a @
                                   [\<lparr>role = User, msg_content = Some (opt_input options),
                                     tool_calls = None, tool_call_id = None\<rparr>])
                                  (messages (fst x))) (new_calls w w'))"
proof (cases "agent_findUnique d (opt_agentId options)")
  case (Inl e)
  with assms(2) execute_agent_query_rejects[OF Inl, of w] show ?thesis by simp
next
  case (Inr found)
  show ?thesis
  proof (cases found)
    case None
    with Inr have nf: "agent_findUnique d (opt_agentId options) = Inr None" by simp
    with assms(2) execute_not_found[OF nf, of w] show ?thesis by simp
  next
    case (Some agent)
    with Inr have found: "agent_findUnique d (opt_agentId options) = Inr (Some agent)" by simp
    show ?thesis
    proof (cases "retrieveContext d (opt_agentId options) (opt_organizationId options)
                    (opt_input options)")
      case (Inl e)
      from execute_context_query_rejects[OF found Inl, of w] assms(2)
      have "res = Inl e" "w' = w" by simp_all
      with found Inl show ?thesis by simp
    next
      case (Inr contexts)
      from execute_run_ok[OF found Inr, of w] assms(2)
      have "arrays w' = arrays (after_push options w)"
        and "list_all (\<lambda>x. call_ok (resolved_alias agent) (resolved_prompt agent)
                             (conversation options w) (fst x)) (new_calls w w')"
        by (simp_all add: run_ok_def)
      with assms(1) found Inr show ?thesis
        by (simp add: after_push_def conversation_def list_all_iff call_ok_def user_message_def)
    qed
  qed
qed

theorem previousMessages_pushed_in_place_witness:
  "(\<exists>res w'. execute (example_deps [Inr (plain_response ''pong'')]) history_options
                history_world = (res, w') \<and>
             arrays w' 0 =
               [\<lparr>role = User, msg_content = Some ''hello'', tool_calls = None,
                 tool_call_id = None\<rparr>,
                \<lparr>role = User, msg_content = Some ''check 1.2.3.4'', tool_calls = None,
                 tool_call_id = None\<rparr>]) \<and>
   (\<exists>res w'. execute (failing_store [Inr (plain_response ''pong'')]) history_options
                history_world = (res, w') \<and>
             res = Inl (Error ''connection lost'') \<and>
             arrays w' 0 =
               [\<lparr>role = User, msg_content = Some ''hello'', tool_calls = None,
                 tool_call_id = None\<rparr>])"
proof -
  let ?d = "example_deps [Inr (plain_response ''pong'')]"
  obtain res w' where run: "execute ?d history_options history_world = (res, w')"
    by (cases "execute ?d history_options history_world") blast
  have prev: "opt_previousMessages history_options = Some 0"
    by (simp add: history_options_def)
  have found: "agent_findUnique ?d (opt_agentId history_options) =
      Inr (Some (example_agent ''single'' ''single_step'' 10))"
    by (simp add: agent_findUnique_def example_deps_def history_options_def example_agent_def)
  have ctx: "retrieveContext ?d (opt_agentId history_options)
      (opt_organizationId history_options) (opt_input history_options) = Inr []"
    by (simp add: code_simps example_simps)
  from previousMessages_pushed_in_place[OF prev run, unfolded found ctx sum.case option.case]
  have "arrays w' 0 =
      [\<lparr>role = User, msg_content = Some ''hello'', tool_calls = None, tool_call_id = None\<rparr>,
       \<lparr>role = User, msg_content = Some ''check 1.2.3.4'', tool_calls = None,
        tool_call_id = None\<rparr>]"
    by (simp add: history_world_def history_options_def user_message_def)
  with run have pushed: "\<exists>res w'. execute ?d history_options history_world = (res, w') \<and>
      arrays w' 0 =
        [\<lparr>role = User, msg_content = Some ''hello'', tool_calls = None, tool_call_id = None\<rparr>,
         \<lparr>role = User, msg_content = Some ''check 1.2.3.4'', tool_calls = None,
          tool_call_id = None\<rparr>]"
    by blast
  let ?f = "failing_store [Inr (plain_response ''pong'')]"
  obtain res2 w2 where run2: "execute ?f history_options history_world = (res2, w2)"
    by (cases "execute ?f history_options history_world") blast
  have found2: "agent_findUnique ?f (opt_agentId history_options) =
      Inr (Some (example_agent ''single'' ''single_step'' 10))"
    by (simp add: agent_findUnique_def failing_store_def example_deps_def history_options_def
          example_agent_def)
  have ctx2: "retrieveContext ?f (opt_agentId history_options)
      (opt_organizationId history_options) (opt_input history_options) =
      Inl (Error ''connection lost'')"
    by (simp add: code_simps example_simps)
  from previousMessages_pushed_in_place[OF prev run2, unfolded found2 ctx2 sum.case option.case]
  have "res2 = Inl (Error ''connection lost'') \<and>
      arrays w2 0 =
        [\<lparr>role = User, msg_content = Some ''hello'', tool_calls = None, tool_call_id = None\<rparr>]"
    by (simp add: history_world_def user_message_def)
  with run2 have "\<exists>res w'. execute ?f history_options history_world = (res, w') \<and>
      res = Inl (Error ''connection lost'') \<and>
      arrays w' 0 =
        [\<lparr>role = User, msg_content = Some ''hello'', tool_calls = None, tool_call_id = None\<rparr>]"
    by blast
  with pushed show ?thesis by blast
qed

theorem previousMessages_untouched_when_agent_missing:
  "opt_previousMessages (history_options\<lparr>opt_agentId := ''nobody''\<rparr>) = Some 0 \<and>
   fst (execute (example_deps []) (history_options\<lparr>opt_agentId := ''nobody''\<rparr>) history_world) =
     Inl (Error ''Agent not found'') \<and>
   arrays (snd (execute (example_deps []) (history_options\<lparr>opt_agentId := ''nobody''\<rparr>)
                  history_world)) 0 = arrays history_world 0 \<and>
   arrays history_world 0 =
     [\<lparr>role = User, msg_content = Some ''hello'', tool_calls = None, tool_call_id = None\<rparr>]"
  by (simp add: code_simps example_simps)

subsection \<open>Usage accounting and the tool results fed back to the model\<close>

lemma executeLoop_usage_additive:
  assumes "executeLoop d options w = (Inr r, w')"
  shows "inputTokens (res_usage r) = sum_inputTokens (new_calls w w') \<and>
         outputTokens (res_usage r) = sum_outputTokens (new_calls w w') \<and>
         totalTokens (res_usage r) =
           sum_inputTokens (new_calls w w') + sum_outputTokens (new_calls w w') \<and>
         toolCallsExecuted r = sum_toolCalls (new_calls w w')"
  using assms
proof (cases rule: executeLoop_cases)
  case (return v)
  from loop_accounting[OF return(1)] return(2) show ?thesis
    by (simp add: loop_init_def loop_result_def)
qed simp

lemma tool_message_of_failure:
  "tr_output result = None \<Longrightarrow>
     tool_message d result =
       Inr \<lparr>role = Tool, msg_content = None, tool_calls = None,
            tool_call_id = Some (toolCallId result)\<rparr>"
  by (simp add: tool_message_def JSON_stringify_opt_def)

text \<open>
  Claim C1 at a failing input. A single_step agent; the first model response requests one
  tool call and reports 10 input and 5 output tokens, the second response reports 20 and 7.
  The two calls used 30 input and 12 output tokens, but the result reports the usage of the
  first call only: executeSingleStep returns \<^verbatim>\<open>usage: response.usage\<close>.
\<close>

theorem single_step_usage_misses_second_call:
  "map_sum id res_usage (fst single_step_run) =
     Inr \<lparr>inputTokens = 10, outputTokens = 5, totalTokens = 15\<rparr> \<and>
   length (llm_calls (snd single_step_run)) = 2 \<and>
   sum_inputTokens (llm_calls (snd single_step_run)) = 30 \<and>
   sum_outputTokens (llm_calls (snd single_step_run)) = 12"
  by (simp add: single_step_run_def sum_inputTokens_def sum_outputTokens_def code_simps example_simps)

lemma plan_usage_misses_planning_call:
  "map_sum id res_usage (fst plan_run) =
     Inr \<lparr>inputTokens = 30, outputTokens = 12, totalTokens = 42\<rparr> \<and>
   length (llm_calls (snd plan_run)) = 3 \<and>
   sum_inputTokens (llm_calls (snd plan_run)) = 50 \<and>
   sum_outputTokens (llm_calls (snd plan_run)) = 19"
  by (simp add: plan_run_def sum_inputTokens_def sum_outputTokens_def code_simps example_simps)

text \<open>
  Claim C2 at a failing input. In the same run the executor of \<^verbatim>\<open>lookup_ip\<close> throws an
  error with the message "timeout". The run continues to a second model call, but the tool
  message of that call has no content: the error text is stored in the \<^verbatim>\<open>error\<close> field of
  the tool result (and so in the trace), while the message content is
  \<^verbatim>\<open>JSON.stringify(result.output)\<close>, and \<^verbatim>\<open>result.output\<close> is undefined.
\<close>

theorem tool_error_text_not_fed_back:
  "tool_execs (snd single_step_run) =
     [(''lookup_ip'', ''{}'',
       \<lparr>organizationId = ''org'', agentId = ''single'', userId = None\<rparr>,
       Inl (Thrown (Some ''timeout'')))] \<and>
   length (llm_calls (snd single_step_run)) = 2 \<and>
   messages (fst (llm_calls (snd single_step_run) ! 1)) =
     [\<lparr>role = User, msg_content = Some ''check 1.2.3.4'', tool_calls = None,
       tool_call_id = None\<rparr>,
      \<lparr>role = Assistant, msg_content = Some ''checking'', tool_calls = Some [lookup_call],
       tool_call_id = None\<rparr>,
      \<lparr>role = Tool, msg_content = None, tool_calls = None, tool_call_id = Some ''call_1''\<rparr>] \<and>
   map_sum id r_output (fst single_step_run) = Inr ''done''"
  by (simp add: single_step_run_def code_simps example_simps)

end
